theory Spec2Isabelle
  imports Main "HOL-Library.Product_Lexorder" "HOL-Library.List_Lexorder" "HOL-Library.Multiset"
begin

section \<open>Data model\<close>

text \<open>
  The tables of \<^verbatim>\<open>users/models.py\<close> and \<^verbatim>\<open>ops/models.py\<close>. A model instance is a
  record; its primary key is \<open>None\<close> until the instance has been inserted. A foreign key
  holds the primary key of the row it points to (\<open>None\<close> for SQL NULL). A table is the
  list of its rows in storage order. Dates and times are integers (days, resp. ticks of
  the clock). The fields declared with \<^verbatim>\<open>choices\<close> are enumerations.
  The equipment catalogue and the many-to-many relation from tasks to equipment are left
  out: no operation below reads or writes them.
\<close>

datatype role = Admin | Technician | Sales_agent

datatype jstatus = Pending | In_progress | Completed | Cancelled

datatype priority = Low | Medium | High | Urgent

datatype tstatus = TPending | TIn_progress | TCompleted

record user =
  user_pk :: "nat option"
  username :: string
  user_role :: role
  is_staff :: bool
  is_active :: bool

record job =
  job_pk :: "nat option"
  job_title :: string
  job_description :: string
  job_client_name :: string
  job_created_by :: "nat option"
  job_assigned_to :: "nat option"
  job_status :: jstatus
  job_priority :: priority
  job_scheduled_date :: int
  job_overdue :: bool
  job_created_at :: int
  job_updated_at :: int

record task =
  task_pk :: "nat option"
  task_job :: nat
  task_title :: string
  task_description :: string
  task_status :: tstatus
  task_order :: nat
  task_completed_at :: "int option"
  task_created_at :: int
  task_updated_at :: int

text \<open>JSON values, for the \<^verbatim>\<open>changes\<close> column of the change log. A dictionary keeps
  its keys in insertion order.\<close>

datatype jval = JNull | JString string | JInt int | JDict "(string \<times> jval) list"

record changelog =
  log_job :: "nat option"
  log_user :: "nat option"
  log_action :: string
  log_changes :: jval
  log_timestamp :: int

record db =
  db_users :: "user list"
  db_jobs :: "job list"
  db_tasks :: "task list"
  db_logs :: "changelog list"

text \<open>Errors. \<open>ValidationError\<close> is Django's \<^verbatim>\<open>django.core.exceptions.ValidationError\<close>
  with its collected messages, \<open>SerializerValidationError\<close> the REST framework's, with
  its messages keyed by field, \<open>BadRequest\<close> an explicit HTTP 400 response
  carrying the value of its \<^verbatim>\<open>error\<close> key. \<open>Http404\<close> and \<open>PermissionDenied\<close> are
  raised by the lookup of the object of a detail route.\<close>

datatype error =
    Http404
  | PermissionDenied
  | ValidationError "string list"
  | SerializerValidationError "(string \<times> string) list"
  | BadRequest string

datatype http_method = GET | HEAD | OPTIONS | POST | PUT | PATCH | DELETE

definition SAFE_METHODS :: "http_method list" where
  "SAFE_METHODS = [GET, HEAD, OPTIONS]"

definition jstatus_str :: "jstatus \<Rightarrow> string" where
  "jstatus_str s = (case s of Pending \<Rightarrow> ''pending'' | In_progress \<Rightarrow> ''in_progress''
                    | Completed \<Rightarrow> ''completed'' | Cancelled \<Rightarrow> ''cancelled'')"

definition tstatus_str :: "tstatus \<Rightarrow> string" where
  "tstatus_str s = (case s of TPending \<Rightarrow> ''pending'' | TIn_progress \<Rightarrow> ''in_progress''
                    | TCompleted \<Rightarrow> ''completed'')"

section \<open>Rows and primary keys\<close>

text \<open>A new row gets a primary key above every key of its table.\<close>

definition next_pk :: "nat option list \<Rightarrow> nat" where
  "next_pk pks = Suc (fold max (map (case_option 0 id) pks) 0)"

definition get_user :: "db \<Rightarrow> nat \<Rightarrow> user option" where
  "get_user d k = find (\<lambda>u. user_pk u = Some k) (db_users d)"

definition get_job :: "db \<Rightarrow> nat \<Rightarrow> job option" where
  "get_job d k = find (\<lambda>j. job_pk j = Some k) (db_jobs d)"

definition get_task :: "db \<Rightarrow> nat \<Rightarrow> task option" where
  "get_task d k = find (\<lambda>t. task_pk t = Some k) (db_tasks d)"

text \<open>\<^verbatim>\<open>Model.save\<close> of the framework, after the overriding method has run: an instance
  without a primary key, or with one that no row has, is inserted; otherwise the row
  with its key is overwritten. The result is the instance as it stands afterwards.\<close>

definition store_user :: "db \<Rightarrow> user \<Rightarrow> db \<times> user" where
  "store_user d u =
     (case user_pk u of
        None \<Rightarrow> (let u' = u\<lparr>user_pk := Some (next_pk (map user_pk (db_users d)))\<rparr>
                 in (d\<lparr>db_users := db_users d @ [u']\<rparr>, u'))
      | Some k \<Rightarrow>
          (if list_ex (\<lambda>r. user_pk r = Some k) (db_users d)
           then (d\<lparr>db_users := map (\<lambda>r. if user_pk r = Some k then u else r) (db_users d)\<rparr>, u)
           else (d\<lparr>db_users := db_users d @ [u]\<rparr>, u)))"

definition store_job :: "int \<Rightarrow> db \<Rightarrow> job \<Rightarrow> db \<times> job" where
  "store_job now d j =
     (case job_pk j of
        None \<Rightarrow> (let j' = j\<lparr>job_pk := Some (next_pk (map job_pk (db_jobs d))),
                            job_created_at := now, job_updated_at := now\<rparr>
                 in (d\<lparr>db_jobs := db_jobs d @ [j']\<rparr>, j'))
      | Some k \<Rightarrow>
          (let j' = j\<lparr>job_updated_at := now\<rparr> in
           if list_ex (\<lambda>r. job_pk r = Some k) (db_jobs d)
           then (d\<lparr>db_jobs := map (\<lambda>r. if job_pk r = Some k then j' else r) (db_jobs d)\<rparr>, j')
           else (d\<lparr>db_jobs := db_jobs d @ [j'\<lparr>job_created_at := now\<rparr>]\<rparr>,
                 j'\<lparr>job_created_at := now\<rparr>)))"

definition store_task :: "int \<Rightarrow> db \<Rightarrow> task \<Rightarrow> db \<times> task" where
  "store_task now d t =
     (case task_pk t of
        None \<Rightarrow> (let t' = t\<lparr>task_pk := Some (next_pk (map task_pk (db_tasks d))),
                            task_created_at := now, task_updated_at := now\<rparr>
                 in (d\<lparr>db_tasks := db_tasks d @ [t']\<rparr>, t'))
      | Some k \<Rightarrow>
          (let t' = t\<lparr>task_updated_at := now\<rparr> in
           if list_ex (\<lambda>r. task_pk r = Some k) (db_tasks d)
           then (d\<lparr>db_tasks := map (\<lambda>r. if task_pk r = Some k then t' else r) (db_tasks d)\<rparr>, t')
           else (d\<lparr>db_tasks := db_tasks d @ [t'\<lparr>task_created_at := now\<rparr>]\<rparr>,
                 t'\<lparr>task_created_at := now\<rparr>)))"

text \<open>\<^verbatim>\<open>JobChangeLog.objects.create\<close>: the entry is appended, stamped with the time of the
  write (\<^verbatim>\<open>auto_now_add\<close>).\<close>

definition changelog_create :: "int \<Rightarrow> db \<Rightarrow> nat option \<Rightarrow> nat option \<Rightarrow> string \<Rightarrow> jval \<Rightarrow> db" where
  "changelog_create now d jid uid act chg =
     d\<lparr>db_logs := db_logs d @
        [\<lparr>log_job = jid, log_user = uid, log_action = act, log_changes = chg,
          log_timestamp = now\<rparr>]\<rparr>"

section \<open>users/models.py\<close>

text \<open>\<^verbatim>\<open>User.save\<close>: an admin is given staff status; nothing takes it away.\<close>

definition user_save :: "db \<Rightarrow> user \<Rightarrow> db \<times> user" where
  "user_save d u =
     (let u1 = (if user_role u = Admin then u\<lparr>is_staff := True\<rparr> else u)
      in store_user d u1)"

section \<open>ops/models.py\<close>

text \<open>\<^verbatim>\<open>Job.can_complete\<close>. The related manager \<^verbatim>\<open>self.tasks\<close> raises \<^verbatim>\<open>ValueError\<close> only
  on an instance without a primary key, which the first test has already answered, so
  the handler's \<open>True\<close> is the same answer.\<close>

definition can_complete :: "db \<Rightarrow> job \<Rightarrow> bool" where
  "can_complete d j =
     (case job_pk j of
        None \<Rightarrow> True
      | Some k \<Rightarrow>
          (let incomplete_tasks =
                 list_ex (\<lambda>t. task_job t = k \<and> task_status t \<in> set [TPending, TIn_progress])
                   (db_tasks d)
           in \<not> incomplete_tasks))"

definition cannot_complete_msg :: string where
  "cannot_complete_msg = ''Cannot complete job. All tasks must be completed first.''"

text \<open>\<^verbatim>\<open>Job.clean\<close>, as the list of the messages it raises.\<close>

definition job_clean :: "db \<Rightarrow> job \<Rightarrow> string list" where
  "job_clean d j =
     (if job_status j = Completed \<and> \<not> can_complete d j then [cannot_complete_msg] else [])"

text \<open>The validators that the framework derives from the field declarations (blank,
  length, choices, existence of the referenced rows) are not part of the repository.
  They are a parameter of the model: \<open>model_field_errors\<close> gives the messages of
  \<^verbatim>\<open>Model.clean_fields\<close> on a job, \<open>job_patch_errors\<close> and \<open>task_patch_errors\<close> the
  errors, keyed by field, of the generated serializer fields on the data of a request.
  A field absent from the data of a request is \<open>None\<close> in the patch.\<close>

record job_patch =
  jp_title :: "string option"
  jp_description :: "string option"
  jp_client_name :: "string option"
  jp_assigned_to_id :: "nat option option"
  jp_status :: "jstatus option"
  jp_priority :: "priority option"
  jp_scheduled_date :: "int option"

record task_patch =
  tp_job :: "nat option"
  tp_title :: "string option"
  tp_description :: "string option"
  tp_status :: "tstatus option"
  tp_order :: "int option"

record validators =
  model_field_errors :: "db \<Rightarrow> job \<Rightarrow> string list"
  job_patch_errors :: "db \<Rightarrow> job_patch \<Rightarrow> (string \<times> string) list"
  task_patch_errors :: "db \<Rightarrow> task_patch \<Rightarrow> (string \<times> string) list"

text \<open>\<^verbatim>\<open>Model.full_clean\<close> collects the messages of the field validators and of
  \<^verbatim>\<open>clean\<close>, and raises if there is any.\<close>

definition full_clean :: "validators \<Rightarrow> db \<Rightarrow> job \<Rightarrow> error + unit" where
  "full_clean V d j =
     (let errors = model_field_errors V d j @ job_clean d j
      in if errors \<noteq> [] then Inl (ValidationError errors) else Inr ())"

text \<open>One field validator can be read off the declaration of the job model itself:
  \<^verbatim>\<open>created_by\<close> is declared \<^verbatim>\<open>null=True\<close> without \<^verbatim>\<open>blank=True\<close>, so
  \<^verbatim>\<open>Model.clean_fields\<close> reports a job whose creator is null, the value that
  \<^verbatim>\<open>on_delete=SET_NULL\<close> stores when the creator is deleted. \<open>declared_validators\<close>
  holds this check and accepts every other field.\<close>

definition created_by_errors :: "db \<Rightarrow> job \<Rightarrow> string list" where
  "created_by_errors d j =
     (if job_created_by j = None then [''This field cannot be blank.''] else [])"

definition declared_validators :: validators where
  "declared_validators =
     \<lparr>model_field_errors = created_by_errors, job_patch_errors = (\<lambda>d p. []),
      task_patch_errors = (\<lambda>d p. [])\<rparr>"

text \<open>\<^verbatim>\<open>Job.save\<close>. An exception leaves the database as it was.\<close>

definition job_save :: "validators \<Rightarrow> int \<Rightarrow> db \<Rightarrow> job \<Rightarrow> db \<times> (error + job)" where
  "job_save V now d j =
     (case full_clean V d j of
        Inl e \<Rightarrow> (d, Inl e)
      | Inr _ \<Rightarrow> (let (d', j') = store_job now d j in (d', Inr j')))"

text \<open>\<^verbatim>\<open>JobTask.save\<close>. A \<^verbatim>\<open>datetime\<close> is always truthy, so \<^verbatim>\<open>not self.completed_at\<close>
  tests for \<^verbatim>\<open>None\<close>.\<close>

definition task_save :: "int \<Rightarrow> db \<Rightarrow> task \<Rightarrow> db \<times> task" where
  "task_save now d t =
     (let t1 = (if task_status t = TCompleted \<and> task_completed_at t = None
                then t\<lparr>task_completed_at := Some now\<rparr>
                else if task_status t \<noteq> TCompleted \<and> task_completed_at t \<noteq> None
                then t\<lparr>task_completed_at := None\<rparr>
                else t)
      in store_task now d t1)"

section \<open>ops/permissions.py\<close>

text \<open>A request carries the authenticated user, the HTTP method and the query
  parameters of the route.\<close>

record 'q request =
  req_user :: user
  req_method :: http_method
  req_query :: 'q

text \<open>Equality of a related user (or \<^verbatim>\<open>None\<close>) with the user of the request, and the
  filter on a foreign key by that user: the key is set and is the user's.\<close>

definition fk_is :: "nat option \<Rightarrow> user \<Rightarrow> bool" where
  "fk_is fk u = (fk \<noteq> None \<and> fk = user_pk u)"

text \<open>The object of a detail route: a job has the attribute \<^verbatim>\<open>assigned_to\<close>, a task the
  attribute \<^verbatim>\<open>job\<close>.\<close>

datatype obj = JobObj job | TaskObj task

text \<open>\<^verbatim>\<open>CanUpdateJobProgress.has_object_permission\<close>. A task's job is read through its
  foreign key; the cascade on deletion keeps that row present.\<close>

definition has_object_permission :: "db \<Rightarrow> http_method \<Rightarrow> user \<Rightarrow> obj \<Rightarrow> bool" where
  "has_object_permission d m u ob =
     (if m \<in> set SAFE_METHODS then True
      else if user_role u = Admin then True
      else (case ob of
              JobObj j \<Rightarrow>
                (if user_role u = Technician then fk_is (job_assigned_to j) u
                 else if user_role u = Sales_agent then fk_is (job_created_by j) u
                 else False)
            | TaskObj t \<Rightarrow>
                (case get_job d (task_job t) of
                   None \<Rightarrow> False
                 | Some j \<Rightarrow>
                     (if user_role u = Technician then fk_is (job_assigned_to j) u
                      else if user_role u = Sales_agent then fk_is (job_created_by j) u
                      else False))))"

section \<open>ops/views.py: jobs\<close>

text \<open>The query parameters that \<^verbatim>\<open>JobViewSet.get_queryset\<close> reads. \<open>q_overdue\<close> is
  \<open>Some True\<close> for a parameter that reads \<^verbatim>\<open>true\<close> in any case, \<open>Some False\<close> for any
  other text.\<close>

record job_query =
  q_status :: "jstatus option"
  q_priority :: "priority option"
  q_assigned_to :: "nat option"
  q_overdue :: "bool option"
  q_start_date :: "int option"
  q_end_date :: "int option"

definition filter_opt :: "'p option \<Rightarrow> ('p \<Rightarrow> 'r \<Rightarrow> bool) \<Rightarrow> 'r list \<Rightarrow> 'r list" where
  "filter_opt param cond qs = (case param of None \<Rightarrow> qs | Some v \<Rightarrow> filter (cond v) qs)"

definition job_get_queryset :: "db \<Rightarrow> user \<Rightarrow> job_query \<Rightarrow> job list" where
  "job_get_queryset d u q =
     (let queryset = db_jobs d;
          queryset = (if user_role u = Technician
                      then filter (\<lambda>j. fk_is (job_assigned_to j) u) queryset
                      else if user_role u = Sales_agent
                      then filter (\<lambda>j. fk_is (job_created_by j) u) queryset
                      else queryset);
          queryset = filter_opt (q_status q) (\<lambda>v j. job_status j = v) queryset;
          queryset = filter_opt (q_priority q) (\<lambda>v j. job_priority j = v) queryset;
          queryset = filter_opt (q_assigned_to q) (\<lambda>v j. job_assigned_to j = Some v) queryset;
          queryset = filter_opt (q_overdue q) (\<lambda>v j. job_overdue j = v) queryset;
          queryset = filter_opt (q_start_date q) (\<lambda>v j. v \<le> job_scheduled_date j) queryset;
          queryset = filter_opt (q_end_date q) (\<lambda>v j. job_scheduled_date j \<le> v) queryset
      in queryset)"

text \<open>\<^verbatim>\<open>get_object\<close> of the framework's generic view: the row with the key of the route
  in the view's queryset, or 404; then the object permissions of the view, or 403. Of
  the permission classes of the two viewsets only \<^verbatim>\<open>CanUpdateJobProgress\<close> defines an
  object permission. The framework's filter backends, which narrow a queryset further by
  query parameters of their own, are left out.\<close>

definition job_get_object :: "db \<Rightarrow> job_query request \<Rightarrow> nat \<Rightarrow> error + job" where
  "job_get_object d r pk =
     (case find (\<lambda>j. job_pk j = Some pk) (job_get_queryset d (req_user r) (req_query r)) of
        None \<Rightarrow> Inl Http404
      | Some j \<Rightarrow>
          (if has_object_permission d (req_method r) (req_user r) (JobObj j) then Inr j
           else Inl PermissionDenied))"

text \<open>\<^verbatim>\<open>JobUpdateSerializer\<close>. The field \<^verbatim>\<open>assigned_to_id\<close> accepts null or the key of an
  active technician. \<^verbatim>\<open>validate\<close> runs once every field has passed.\<close>

definition active_technician :: "db \<Rightarrow> nat \<Rightarrow> bool" where
  "active_technician d k =
     list_ex (\<lambda>u. user_pk u = Some k \<and> user_role u = Technician \<and> is_active u) (db_users d)"

definition assigned_to_id_errors :: "db \<Rightarrow> nat option option \<Rightarrow> (string \<times> string) list" where
  "assigned_to_id_errors d v =
     (case v of
        Some (Some k) \<Rightarrow>
          (if active_technician d k then [] else [(''assigned_to_id'', ''does_not_exist'')])
      | _ \<Rightarrow> [])"

definition job_update_validate :: "db \<Rightarrow> job \<Rightarrow> job_patch \<Rightarrow> error + job_patch" where
  "job_update_validate d instance attrs =
     (let new_status = (case jp_status attrs of None \<Rightarrow> job_status instance | Some s \<Rightarrow> s)
      in if new_status = Completed \<and> \<not> can_complete d instance
         then Inl (SerializerValidationError [(''status'', cannot_complete_msg)])
         else Inr attrs)"

definition job_update_is_valid :: "validators \<Rightarrow> db \<Rightarrow> job \<Rightarrow> job_patch \<Rightarrow> error + job_patch" where
  "job_update_is_valid V d instance p =
     (let errors = job_patch_errors V d p @ assigned_to_id_errors d (jp_assigned_to_id p)
      in if errors \<noteq> [] then Inl (SerializerValidationError errors)
         else job_update_validate d instance p)"

text \<open>\<^verbatim>\<open>ModelSerializer.update\<close> sets every validated attribute on the instance.\<close>

definition set_opt :: "'v option \<Rightarrow> ('v \<Rightarrow> 'r \<Rightarrow> 'r) \<Rightarrow> 'r \<Rightarrow> 'r" where
  "set_opt v upd r = (case v of None \<Rightarrow> r | Some x \<Rightarrow> upd x r)"

definition job_apply_patch :: "job \<Rightarrow> job_patch \<Rightarrow> job" where
  "job_apply_patch instance attrs =
     (set_opt (jp_scheduled_date attrs) (\<lambda>v j. j\<lparr>job_scheduled_date := v\<rparr>)
     (set_opt (jp_priority attrs) (\<lambda>v j. j\<lparr>job_priority := v\<rparr>)
     (set_opt (jp_status attrs) (\<lambda>v j. j\<lparr>job_status := v\<rparr>)
     (set_opt (jp_assigned_to_id attrs) (\<lambda>v j. j\<lparr>job_assigned_to := v\<rparr>)
     (set_opt (jp_client_name attrs) (\<lambda>v j. j\<lparr>job_client_name := v\<rparr>)
     (set_opt (jp_description attrs) (\<lambda>v j. j\<lparr>job_description := v\<rparr>)
     (set_opt (jp_title attrs) (\<lambda>v j. j\<lparr>job_title := v\<rparr>) instance)))))))"

definition username_json :: "db \<Rightarrow> nat option \<Rightarrow> jval" where
  "username_json d fk =
     (case fk of
        None \<Rightarrow> JNull
      | Some k \<Rightarrow> (case get_user d k of None \<Rightarrow> JNull | Some u \<Rightarrow> JString (username u)))"

text \<open>\<^verbatim>\<open>JobViewSet.perform_update\<close>, with the serializer's \<^verbatim>\<open>save\<close> written out.\<close>

definition job_changes :: "db \<Rightarrow> jstatus \<Rightarrow> nat option \<Rightarrow> job \<Rightarrow> (string \<times> jval) list" where
  "job_changes d old_status old_assigned j =
     (if old_status \<noteq> job_status j
      then [(''status'', JDict [(''old'', JString (jstatus_str old_status)),
                                (''new'', JString (jstatus_str (job_status j)))])]
      else []) @
     (if old_assigned \<noteq> job_assigned_to j
      then [(''assigned_to'', JDict [(''old'', username_json d old_assigned),
                                     (''new'', username_json d (job_assigned_to j))])]
      else [])"

definition job_perform_update ::
  "validators \<Rightarrow> int \<Rightarrow> db \<Rightarrow> job_query request \<Rightarrow> nat \<Rightarrow> job \<Rightarrow> job_patch \<Rightarrow> db \<times> (error + job)" where
  "job_perform_update V now d r pk instance attrs =
     (case job_get_object d r pk of
        Inl e \<Rightarrow> (d, Inl e)
      | Inr old_instance \<Rightarrow>
          (let old_status = job_status old_instance;
               old_assigned = job_assigned_to old_instance
           in case job_save V now d (job_apply_patch instance attrs) of
                (d1, Inl e) \<Rightarrow> (d1, Inl e)
              | (d1, Inr j) \<Rightarrow>
                  (let changes = job_changes d1 old_status old_assigned j
                   in if changes \<noteq> []
                      then (changelog_create now d1 (job_pk j) (user_pk (req_user r))
                              ''updated'' (JDict changes), Inr j)
                      else (d1, Inr j))))"

text \<open>The framework's \<^verbatim>\<open>update\<close> and \<^verbatim>\<open>partial_update\<close> actions: fetch the object,
  validate the data, then \<^verbatim>\<open>perform_update\<close>.\<close>

definition update_job ::
  "validators \<Rightarrow> int \<Rightarrow> db \<Rightarrow> job_query request \<Rightarrow> nat \<Rightarrow> job_patch \<Rightarrow> db \<times> (error + job)" where
  "update_job V now d r pk p =
     (case job_get_object d r pk of
        Inl e \<Rightarrow> (d, Inl e)
      | Inr instance \<Rightarrow>
          (case job_update_is_valid V d instance p of
             Inl e \<Rightarrow> (d, Inl e)
           | Inr attrs \<Rightarrow> job_perform_update V now d r pk instance attrs))"

text \<open>\<^verbatim>\<open>JobViewSet.complete\<close>.\<close>

definition complete ::
  "validators \<Rightarrow> int \<Rightarrow> db \<Rightarrow> job_query request \<Rightarrow> nat \<Rightarrow> db \<times> (error + job)" where
  "complete V now d r pk =
     (case job_get_object d r pk of
        Inl e \<Rightarrow> (d, Inl e)
      | Inr j \<Rightarrow>
          (if \<not> can_complete d j then (d, Inl (BadRequest cannot_complete_msg))
           else (case job_save V now d (j\<lparr>job_status := Completed\<rparr>) of
                   (d1, Inl e) \<Rightarrow> (d1, Inl e)
                 | (d1, Inr j1) \<Rightarrow>
                     (changelog_create now d1 (job_pk j1) (user_pk (req_user r)) ''completed''
                        (JDict [(''status'', JString ''Job marked as completed'')]),
                      Inr j1))))"

section \<open>ops/views.py and ops/serializers.py: tasks\<close>

text \<open>The query parameters of the task routes. \<open>tq_ordering\<close> is the \<^verbatim>\<open>ordering\<close>
  parameter split at its commas: each term is a field name, with \<open>True\<close> when it is
  written with a leading minus sign (descending).\<close>

record task_query =
  tq_job :: "nat option"
  tq_status :: "tstatus option"
  tq_ordering :: "(bool \<times> string) list"

text \<open>\<^verbatim>\<open>JobTaskViewSet.get_queryset\<close>. The filter \<^verbatim>\<open>job__assigned_to\<close> joins the task's
  job. (The view's \<^verbatim>\<open>DjangoFilterBackend\<close> filters on the same two parameters once
  more.)\<close>

definition task_get_queryset :: "db \<Rightarrow> user \<Rightarrow> task_query \<Rightarrow> task list" where
  "task_get_queryset d u q =
     (let queryset = db_tasks d;
          queryset = filter_opt (tq_job q) (\<lambda>v t. task_job t = v) queryset;
          queryset = filter_opt (tq_status q) (\<lambda>v t. task_status t = v) queryset;
          queryset = (if user_role u = Technician
                      then filter (\<lambda>t. case get_job d (task_job t) of
                                          None \<Rightarrow> False
                                        | Some j \<Rightarrow> fk_is (job_assigned_to j) u) queryset
                      else queryset)
      in queryset)"

definition task_get_object :: "db \<Rightarrow> task_query request \<Rightarrow> nat \<Rightarrow> error + task" where
  "task_get_object d r pk =
     (case find (\<lambda>t. task_pk t = Some pk) (task_get_queryset d (req_user r) (req_query r)) of
        None \<Rightarrow> Inl Http404
      | Some t \<Rightarrow>
          (if has_object_permission d (req_method r) (req_user r) (TaskObj t) then Inr t
           else Inl PermissionDenied))"

text \<open>Ordering. The model's \<^verbatim>\<open>Meta.ordering\<close> is \<^verbatim>\<open>['order', 'created_at']\<close>; it orders a
  queryset that has no ordering of its own, such as \<^verbatim>\<open>job.tasks.all()\<close> behind the
  nested \<^verbatim>\<open>tasks\<close> of \<^verbatim>\<open>JobSerializer\<close>. The list route of \<^verbatim>\<open>JobTaskViewSet\<close> goes
  through the framework's \<^verbatim>\<open>OrderingFilter\<close>: the terms of the \<^verbatim>\<open>ordering\<close> parameter
  that name one of \<^verbatim>\<open>ordering_fields\<close> are kept; if none is left the view's
  \<^verbatim>\<open>ordering = ['order']\<close> is taken; \<^verbatim>\<open>order_by\<close> then replaces the ordering of the
  queryset. Rows that agree on every key of an ordering come in storage order here (SQL
  leaves their order open).\<close>

definition meta_ordering :: "task list \<Rightarrow> task list" where
  "meta_ordering ts = sort_key (\<lambda>t. (task_order t, task_created_at t)) ts"

definition job_tasks :: "db \<Rightarrow> nat \<Rightarrow> task list" where
  "job_tasks d k = meta_ordering (filter (\<lambda>t. task_job t = k) (db_tasks d))"

definition ordering_fields :: "string list" where
  "ordering_fields = [''order'', ''created_at'']"

definition view_ordering :: "(bool \<times> string) list" where
  "view_ordering = [(False, ''order'')]"

definition get_ordering :: "(bool \<times> string) list \<Rightarrow> (bool \<times> string) list" where
  "get_ordering terms =
     (let ordering = filter (\<lambda>(desc, f). f \<in> set ordering_fields) terms
      in if ordering \<noteq> [] then ordering else view_ordering)"

definition task_field :: "string \<Rightarrow> task \<Rightarrow> int" where
  "task_field f t = (if f = ''order'' then int (task_order t) else task_created_at t)"

definition order_by :: "(bool \<times> string) list \<Rightarrow> task list \<Rightarrow> task list" where
  "order_by terms ts =
     foldr (\<lambda>(desc, f) acc. sort_key (\<lambda>t. if desc then - task_field f t else task_field f t) acc)
       terms ts"

definition task_list :: "db \<Rightarrow> task_query request \<Rightarrow> task list" where
  "task_list d r =
     order_by (get_ordering (tq_ordering (req_query r)))
       (task_get_queryset d (req_user r) (req_query r))"

text \<open>\<^verbatim>\<open>JobTaskSerializer\<close>: \<^verbatim>\<open>validate_order\<close> is the one validator written in the
  repository.\<close>

definition validate_order :: "int option \<Rightarrow> (string \<times> string) list" where
  "validate_order v =
     (case v of
        None \<Rightarrow> []
      | Some x \<Rightarrow> (if x < 0 then [(''order'', ''Order must be a positive number.'')] else []))"

definition task_is_valid :: "validators \<Rightarrow> db \<Rightarrow> task_patch \<Rightarrow> error + task_patch" where
  "task_is_valid V d p =
     (let errors = task_patch_errors V d p @ validate_order (tp_order p)
      in if errors \<noteq> [] then Inl (SerializerValidationError errors) else Inr p)"

definition task_apply_patch :: "task \<Rightarrow> task_patch \<Rightarrow> task" where
  "task_apply_patch instance attrs =
     (set_opt (tp_order attrs) (\<lambda>v t. t\<lparr>task_order := nat v\<rparr>)
     (set_opt (tp_status attrs) (\<lambda>v t. t\<lparr>task_status := v\<rparr>)
     (set_opt (tp_description attrs) (\<lambda>v t. t\<lparr>task_description := v\<rparr>)
     (set_opt (tp_title attrs) (\<lambda>v t. t\<lparr>task_title := v\<rparr>)
     (set_opt (tp_job attrs) (\<lambda>v t. t\<lparr>task_job := v\<rparr>) instance)))))"

text \<open>\<^verbatim>\<open>JobTaskViewSet.perform_update\<close>, with the serializer's \<^verbatim>\<open>save\<close> written out.\<close>

definition task_changes :: "tstatus \<Rightarrow> task \<Rightarrow> jval" where
  "task_changes old_status t =
     JDict [(''task_id'', case task_pk t of None \<Rightarrow> JNull | Some k \<Rightarrow> JInt (int k)),
            (''task_title'', JString (task_title t)),
            (''old_status'', JString (tstatus_str old_status)),
            (''new_status'', JString (tstatus_str (task_status t)))]"

definition task_perform_update ::
  "int \<Rightarrow> db \<Rightarrow> task_query request \<Rightarrow> nat \<Rightarrow> task \<Rightarrow> task_patch \<Rightarrow> db \<times> (error + task)" where
  "task_perform_update now d r pk instance attrs =
     (case task_get_object d r pk of
        Inl e \<Rightarrow> (d, Inl e)
      | Inr old_instance \<Rightarrow>
          (let old_status = task_status old_instance;
               (d1, t) = task_save now d (task_apply_patch instance attrs)
           in if old_status \<noteq> task_status t
              then (changelog_create now d1 (Some (task_job t)) (user_pk (req_user r))
                      ''task_updated'' (task_changes old_status t), Inr t)
              else (d1, Inr t)))"

definition update_task ::
  "validators \<Rightarrow> int \<Rightarrow> db \<Rightarrow> task_query request \<Rightarrow> nat \<Rightarrow> task_patch \<Rightarrow> db \<times> (error + task)" where
  "update_task V now d r pk p =
     (case task_get_object d r pk of
        Inl e \<Rightarrow> (d, Inl e)
      | Inr instance \<Rightarrow>
          (case task_is_valid V d p of
             Inl e \<Rightarrow> (d, Inl e)
           | Inr attrs \<Rightarrow> task_perform_update now d r pk instance attrs))"

section \<open>ops/tasks.py\<close>

text \<open>A Python value, as far as the results below need one.\<close>

datatype pyval = PyInt int | PyStr string

text \<open>The decimal digits of a natural number, as an f-string prints it.\<close>

fun str_nat :: "nat \<Rightarrow> string" where
  "str_nat n =
     (if n < 10 then [''0123456789'' ! n]
      else str_nat (n div 10) @ [''0123456789'' ! (n mod 10)])"

declare str_nat.simps [simp del]

text \<open>\<^verbatim>\<open>check_overdue_jobs\<close>: the filter, the bulk \<^verbatim>\<open>update\<close> (which writes the one
  column on the rows of the filter and gives their number), and the message.\<close>

definition is_overdue_candidate :: "int \<Rightarrow> job \<Rightarrow> bool" where
  "is_overdue_candidate today j =
     (job_scheduled_date j < today \<and> job_status j \<in> set [Pending, In_progress]
      \<and> job_overdue j = False)"

definition check_overdue_jobs :: "int \<Rightarrow> db \<Rightarrow> db \<times> pyval" where
  "check_overdue_jobs today d =
     (let count = length (filter (is_overdue_candidate today) (db_jobs d));
          d' = d\<lparr>db_jobs := map (\<lambda>j. if is_overdue_candidate today j
                                       then j\<lparr>job_overdue := True\<rparr> else j) (db_jobs d)\<rparr>;
          message = ''Marked '' @ str_nat count @ '' jobs as overdue''
      in (d', PyStr message))"

section \<open>Sample data\<close>

text \<open>A small database on which the operations are run below: an administrator, two
  technicians and two sales agents; a job in progress, created by the first sales agent
  and assigned to the first technician, with a pending and a completed task; and a
  completed job with one completed task. The sample validators accept every field.\<close>

definition ex_V :: validators where
  "ex_V = \<lparr>model_field_errors = (\<lambda>d j. []), job_patch_errors = (\<lambda>d p. []),
           task_patch_errors = (\<lambda>d p. [])\<rparr>"

definition ex_admin :: user where
  "ex_admin = \<lparr>user_pk = Some 1, username = ''root'', user_role = Admin, is_staff = True,
               is_active = True\<rparr>"

definition ex_tech :: user where
  "ex_tech = \<lparr>user_pk = Some 2, username = ''tina'', user_role = Technician, is_staff = False,
              is_active = True\<rparr>"

definition ex_tech2 :: user where
  "ex_tech2 = \<lparr>user_pk = Some 3, username = ''tom'', user_role = Technician, is_staff = False,
               is_active = True\<rparr>"

definition ex_sales :: user where
  "ex_sales = \<lparr>user_pk = Some 4, username = ''sam'', user_role = Sales_agent, is_staff = False,
               is_active = True\<rparr>"

definition ex_sales2 :: user where
  "ex_sales2 = \<lparr>user_pk = Some 5, username = ''sue'', user_role = Sales_agent,
                is_staff = False, is_active = True\<rparr>"

definition ex_job :: job where
  "ex_job = \<lparr>job_pk = Some 1, job_title = ''Install'', job_description = ''Install unit'',
             job_client_name = ''Acme'', job_created_by = Some 4, job_assigned_to = Some 2,
             job_status = In_progress, job_priority = Medium, job_scheduled_date = 9,
             job_overdue = False, job_created_at = 1, job_updated_at = 1\<rparr>"

definition ex_job_done :: job where
  "ex_job_done = \<lparr>job_pk = Some 2, job_title = ''Repair'', job_description = ''Repair unit'',
             job_client_name = ''Bolt'', job_created_by = Some 4, job_assigned_to = Some 3,
             job_status = Completed, job_priority = High, job_scheduled_date = 12,
             job_overdue = False, job_created_at = 2, job_updated_at = 6\<rparr>"

definition ex_job_empty :: job where
  "ex_job_empty = \<lparr>job_pk = Some 3, job_title = ''Survey'', job_description = ''Site survey'',
             job_client_name = ''Core'', job_created_by = Some 5, job_assigned_to = None,
             job_status = Pending, job_priority = Low, job_scheduled_date = 12,
             job_overdue = False, job_created_at = 3, job_updated_at = 3\<rparr>"

definition ex_task_a :: task where
  "ex_task_a = \<lparr>task_pk = Some 1, task_job = 1, task_title = ''Mount'',
                task_description = ''Mount the unit'', task_status = TCompleted, task_order = 2,
                task_completed_at = Some 4, task_created_at = 2, task_updated_at = 4\<rparr>"

definition ex_task_b :: task where
  "ex_task_b = \<lparr>task_pk = Some 2, task_job = 1, task_title = ''Unpack'',
                task_description = ''Unpack the unit'', task_status = TPending, task_order = 1,
                task_completed_at = None, task_created_at = 3, task_updated_at = 3\<rparr>"

definition ex_task_c :: task where
  "ex_task_c = \<lparr>task_pk = Some 3, task_job = 2, task_title = ''Solder'',
                task_description = ''Solder the joint'', task_status = TCompleted, task_order = 0,
                task_completed_at = Some 6, task_created_at = 5, task_updated_at = 6\<rparr>"

definition ex_db :: db where
  "ex_db = \<lparr>db_users = [ex_admin, ex_tech, ex_tech2, ex_sales, ex_sales2],
            db_jobs = [ex_job, ex_job_done, ex_job_empty],
            db_tasks = [ex_task_a, ex_task_b, ex_task_c], db_logs = []\<rparr>"

text \<open>The sample database after the second sales agent has been deleted: the job she
  created has no creator any more.\<close>

definition ex_db_creator_deleted :: db where
  "ex_db_creator_deleted =
     \<lparr>db_users = [ex_admin, ex_tech, ex_tech2, ex_sales],
      db_jobs = [ex_job, ex_job_done, ex_job_empty\<lparr>job_created_by := None\<rparr>],
      db_tasks = [ex_task_a, ex_task_b, ex_task_c], db_logs = []\<rparr>"

definition no_job_query :: job_query where
  "no_job_query = \<lparr>q_status = None, q_priority = None, q_assigned_to = None, q_overdue = None,
                    q_start_date = None, q_end_date = None\<rparr>"

definition no_task_query :: task_query where
  "no_task_query = \<lparr>tq_job = None, tq_status = None, tq_ordering = []\<rparr>"

definition no_job_patch :: job_patch where
  "no_job_patch = \<lparr>jp_title = None, jp_description = None, jp_client_name = None,
                    jp_assigned_to_id = None, jp_status = None, jp_priority = None,
                    jp_scheduled_date = None\<rparr>"

definition no_task_patch :: task_patch where
  "no_task_patch = \<lparr>tp_job = None, tp_title = None, tp_description = None, tp_status = None,
                     tp_order = None\<rparr>"

section \<open>Rows after a save\<close>

lemma fold_max_ge_init: "(a::nat) \<le> fold max xs a"
proof (induction xs arbitrary: a)
  case Nil show ?case by simp
next
  case (Cons x xs)
  have "a \<le> max x a" by simp
  also have "\<dots> \<le> fold max xs (max x a)" by (rule Cons.IH)
  finally show ?case by simp
qed

lemma fold_max_ge_elem: "x \<in> set xs \<Longrightarrow> (x::nat) \<le> fold max xs a"
proof (induction xs arbitrary: a)
  case Nil then show ?case by simp
next
  case (Cons y ys)
  show ?case
  proof (cases "x = y")
    case True
    have "x \<le> max y a" using True by simp
    also have "\<dots> \<le> fold max ys (max y a)" by (rule fold_max_ge_init)
    finally show ?thesis by simp
  next
    case False
    with Cons.prems have "x \<in> set ys" by simp
    then show ?thesis using Cons.IH by simp
  qed
qed

lemma next_pk_fresh: "Some (next_pk pks) \<notin> set pks"
proof
  assume "Some (next_pk pks) \<in> set pks"
  then have "next_pk pks \<in> set (map (case_option 0 id) pks)" by force
  then have "next_pk pks \<le> fold max (map (case_option 0 id) pks) 0"
    by (rule fold_max_ge_elem)
  then show False by (simp add: next_pk_def)
qed

lemma next_pk_fresh_row: "r \<in> set rows \<Longrightarrow> pk r \<noteq> Some (next_pk (map pk rows))"
proof
  assume r: "r \<in> set rows" and eq: "pk r = Some (next_pk (map pk rows))"
  from r have "pk r \<in> set (map pk rows)" by simp
  with eq have "Some (next_pk (map pk rows)) \<in> set (map pk rows)" by simp
  then show False using next_pk_fresh by blast
qed

lemma find_replace:
  "\<exists>x\<in>set xs. P x \<Longrightarrow> P y \<Longrightarrow> find P (map (\<lambda>r. if P r then y else r) xs) = Some y"
proof (induction xs)
  case Nil then show ?case by simp
next
  case (Cons a xs)
  show ?case
  proof (cases "P a")
    case True then show ?thesis using Cons.prems(2) by simp
  next
    case False
    with Cons.prems(1) have "\<exists>x\<in>set xs. P x" by simp
    then show ?thesis using False Cons.IH Cons.prems(2) by simp
  qed
qed

lemma find_append_new:
  "\<forall>x\<in>set xs. \<not> P x \<Longrightarrow> P y \<Longrightarrow> find P (xs @ [y]) = Some y"
  by (induction xs) simp_all

lemma store_user_row:
  assumes "store_user d u = (d', u')"
  shows "\<exists>k. user_pk u' = Some k \<and> get_user d' k = Some u'"
proof (cases "user_pk u")
  case None
  let ?k = "next_pk (map user_pk (db_users d))"
  from None assms have u': "u' = u\<lparr>user_pk := Some ?k\<rparr>"
    and d': "db_users d' = db_users d @ [u']"
    by (auto simp: store_user_def Let_def)
  have "\<forall>x\<in>set (db_users d). \<not> user_pk x = Some ?k"
    using next_pk_fresh_row [where pk=user_pk and rows="db_users d"] by blast
  then have "find (\<lambda>r. user_pk r = Some ?k) (db_users d @ [u']) = Some u'"
    by (rule find_append_new) (simp add: u')
  then show ?thesis using d' u' by (simp add: get_user_def)
next
  case (Some k)
  show ?thesis
  proof (cases "list_ex (\<lambda>r. user_pk r = Some k) (db_users d)")
    case True
    with Some assms have u': "u' = u"
      and d': "db_users d' = map (\<lambda>r. if user_pk r = Some k then u else r) (db_users d)"
      by (auto simp: store_user_def)
    from True have "\<exists>x\<in>set (db_users d). user_pk x = Some k" by (simp add: list_ex_iff)
    then have "find (\<lambda>r. user_pk r = Some k)
                 (map (\<lambda>r. if user_pk r = Some k then u else r) (db_users d)) = Some u"
      by (rule find_replace) (rule Some)
    then show ?thesis using d' u' Some by (simp add: get_user_def)
  next
    case False
    with Some assms have u': "u' = u" and d': "db_users d' = db_users d @ [u]"
      by (auto simp: store_user_def)
    from False have "\<forall>x\<in>set (db_users d). \<not> user_pk x = Some k" by (simp add: list_ex_iff)
    then have "find (\<lambda>r. user_pk r = Some k) (db_users d @ [u]) = Some u"
      by (rule find_append_new) (rule Some)
    then show ?thesis using d' u' Some by (simp add: get_user_def)
  qed
qed

lemma store_user_fields:
  "is_staff (snd (store_user d u)) = is_staff u \<and> user_role (snd (store_user d u)) = user_role u"
  by (simp add: store_user_def Let_def split: option.split)

lemma store_task_row:
  assumes "store_task now d t = (d', t')"
  shows "\<exists>k. task_pk t' = Some k \<and> get_task d' k = Some t'"
proof (cases "task_pk t")
  case None
  let ?k = "next_pk (map task_pk (db_tasks d))"
  from None assms
  have t': "t' = t\<lparr>task_pk := Some ?k, task_created_at := now, task_updated_at := now\<rparr>"
    and d': "db_tasks d' = db_tasks d @ [t']"
    by (auto simp: store_task_def Let_def)
  have "\<forall>x\<in>set (db_tasks d). \<not> task_pk x = Some ?k"
    using next_pk_fresh_row [where pk=task_pk and rows="db_tasks d"] by blast
  then have "find (\<lambda>r. task_pk r = Some ?k) (db_tasks d @ [t']) = Some t'"
    by (rule find_append_new) (simp add: t')
  then show ?thesis using d' t' by (simp add: get_task_def)
next
  case (Some k)
  show ?thesis
  proof (cases "list_ex (\<lambda>r. task_pk r = Some k) (db_tasks d)")
    case True
    with Some assms have t': "t' = t\<lparr>task_updated_at := now\<rparr>"
      and d': "db_tasks d' = map (\<lambda>r. if task_pk r = Some k then t' else r) (db_tasks d)"
      by (auto simp: store_task_def Let_def)
    have pk: "task_pk t' = Some k" using t' Some by simp
    from True have "\<exists>x\<in>set (db_tasks d). task_pk x = Some k" by (simp add: list_ex_iff)
    then have "find (\<lambda>r. task_pk r = Some k)
                 (map (\<lambda>r. if task_pk r = Some k then t' else r) (db_tasks d)) = Some t'"
      by (rule find_replace) (rule pk)
    then show ?thesis using d' pk by (simp add: get_task_def)
  next
    case False
    with Some assms
    have t': "t' = t\<lparr>task_updated_at := now, task_created_at := now\<rparr>"
      and d': "db_tasks d' = db_tasks d @ [t']"
      by (auto simp: store_task_def Let_def)
    have pk: "task_pk t' = Some k" using t' Some by simp
    from False have "\<forall>x\<in>set (db_tasks d). \<not> task_pk x = Some k" by (simp add: list_ex_iff)
    then have "find (\<lambda>r. task_pk r = Some k) (db_tasks d @ [t']) = Some t'"
      by (rule find_append_new) (rule pk)
    then show ?thesis using d' pk by (simp add: get_task_def)
  qed
qed

lemma store_task_fields:
  "task_status (snd (store_task now d t)) = task_status t
   \<and> task_completed_at (snd (store_task now d t)) = task_completed_at t
   \<and> task_job (snd (store_task now d t)) = task_job t
   \<and> task_title (snd (store_task now d t)) = task_title t"
  by (simp add: store_task_def Let_def split: option.split)

lemma store_task_others:
  "db_logs (fst (store_task now d t)) = db_logs d
   \<and> db_jobs (fst (store_task now d t)) = db_jobs d
   \<and> db_users (fst (store_task now d t)) = db_users d"
  by (simp add: store_task_def Let_def split: option.split)

section \<open>The staff flag of a user\<close>

text \<open>
  C10. A save of a user whose role is admin sets \<open>is_staff\<close>. A save of a user with any
  other role leaves \<open>is_staff\<close> as it was, so it is never cleared: a user who was saved as
  an admin and whose role is then changed to another one still has \<open>is_staff\<close> after the
  next save. The row stored under the user's key is the saved instance.
\<close>

theorem user_save_is_staff:
  "(user_role u = Admin \<longrightarrow> is_staff (snd (user_save d u)))
   \<and> (user_role u \<noteq> Admin \<longrightarrow> is_staff (snd (user_save d u)) = is_staff u)
   \<and> (user_role u = Admin \<and> r \<noteq> Admin \<longrightarrow>
        is_staff (snd (user_save d2 ((snd (user_save d u))\<lparr>user_role := r\<rparr>))))
   \<and> (\<exists>k. user_pk (snd (user_save d u)) = Some k
           \<and> get_user (fst (user_save d u)) k = Some (snd (user_save d u)))"
proof -
  have staff: "is_staff (snd (user_save d u)) = (if user_role u = Admin then True else is_staff u)"
    for d u
    by (simp add: user_save_def Let_def store_user_fields)
  have row: "\<exists>k. user_pk (snd (user_save d u)) = Some k
                \<and> get_user (fst (user_save d u)) k = Some (snd (user_save d u))"
    by (rule store_user_row) (simp add: user_save_def Let_def)
  show ?thesis using row by (simp add: staff)
qed

theorem user_save_is_staff_witness:
  "is_staff (snd (user_save ex_db (ex_tech\<lparr>user_role := Admin\<rparr>)))
   \<and> is_staff (snd (user_save ex_db ex_sales)) = False
   \<and> is_staff (snd (user_save ex_db
        ((snd (user_save ex_db (ex_tech\<lparr>user_role := Admin\<rparr>)))\<lparr>user_role := Technician\<rparr>)))
   \<and> get_user (fst (user_save ex_db (ex_tech\<lparr>user_role := Admin\<rparr>))) 2
       = Some (ex_tech\<lparr>user_role := Admin, is_staff := True\<rparr>)"
  using user_save_is_staff [of "ex_tech\<lparr>user_role := Admin\<rparr>" ex_db Technician ex_db]
    user_save_is_staff [of ex_sales ex_db Technician ex_db]
  by (simp add: ex_tech_def ex_sales_def user_save_def store_user_def ex_db_def ex_admin_def
      ex_tech2_def ex_sales2_def get_user_def Let_def)

section \<open>The completion time of a task\<close>

lemma task_save_result:
  assumes "task_save now d t = (d', t')"
  shows "(task_completed_at t' \<noteq> None \<longleftrightarrow> task_status t' = TCompleted)
         \<and> task_status t' = task_status t
         \<and> (task_status t = TCompleted \<and> task_completed_at t = None
              \<longrightarrow> task_completed_at t' = Some now)
         \<and> (task_status t \<noteq> TCompleted \<longrightarrow> task_completed_at t' = None)
         \<and> (\<exists>k. task_pk t' = Some k \<and> get_task d' k = Some t')"
proof -
  define t1 where "t1 = (if task_status t = TCompleted \<and> task_completed_at t = None
                then t\<lparr>task_completed_at := Some now\<rparr>
                else if task_status t \<noteq> TCompleted \<and> task_completed_at t \<noteq> None
                then t\<lparr>task_completed_at := None\<rparr>
                else t)"
  have st: "store_task now d t1 = (d', t')"
    using assms by (simp add: task_save_def t1_def Let_def)
  then have t': "t' = snd (store_task now d t1)" by simp
  have f1: "task_status t' = task_status t1" and f2: "task_completed_at t' = task_completed_at t1"
    using store_task_fields [of now d t1] by (simp_all add: t')
  have s1: "task_status t1 = task_status t" by (simp add: t1_def)
  have c1: "task_completed_at t1 =
              (if task_status t = TCompleted
               then (case task_completed_at t of None \<Rightarrow> Some now | Some c \<Rightarrow> Some c)
               else None)"
    by (cases "task_completed_at t") (simp_all add: t1_def)
  have row: "\<exists>k. task_pk t' = Some k \<and> get_task d' k = Some t'"
    using st by (rule store_task_row)
  show ?thesis using row by (simp add: f1 f2 s1 c1 split: option.split)
qed

text \<open>
  C4. After a save of a task, \<open>completed_at\<close> is set if and only if the status is
  completed, on the saved instance, which is the row stored under its key. A save with
  status completed and no \<open>completed_at\<close> sets it to the current time; a save with any
  other status clears it.
\<close>

theorem task_save_completed_at:
  assumes "task_save now d t = (d', t')"
  shows "(task_completed_at t' \<noteq> None \<longleftrightarrow> task_status t' = TCompleted)
         \<and> task_status t' = task_status t
         \<and> (task_status t = TCompleted \<and> task_completed_at t = None
              \<longrightarrow> task_completed_at t' = Some now)
         \<and> (task_status t \<noteq> TCompleted \<longrightarrow> task_completed_at t' = None)
         \<and> (\<exists>k. task_pk t' = Some k \<and> get_task d' k = Some t')"
  using assms by (rule task_save_result)

theorem task_save_completed_at_witness:
  "task_completed_at (snd (task_save 20 ex_db (ex_task_b\<lparr>task_status := TCompleted\<rparr>))) = Some 20
   \<and> task_completed_at (snd (task_save 20 ex_db (ex_task_a\<lparr>task_status := TIn_progress\<rparr>))) = None
   \<and> get_task (fst (task_save 20 ex_db (ex_task_b\<lparr>task_status := TCompleted\<rparr>))) 2
       = Some (snd (task_save 20 ex_db (ex_task_b\<lparr>task_status := TCompleted\<rparr>)))"
  using task_save_completed_at [OF surjective_pairing,
          of 20 ex_db "ex_task_b\<lparr>task_status := TCompleted\<rparr>"]
    task_save_completed_at [OF surjective_pairing,
          of 20 ex_db "ex_task_a\<lparr>task_status := TIn_progress\<rparr>"]
  by (simp add: ex_task_a_def ex_task_b_def task_save_def store_task_def Let_def ex_db_def
      ex_task_c_def)

section \<open>Object permissions\<close>

text \<open>
  C2. For an authenticated actor (a user with a key), every read (GET, HEAD, OPTIONS) of
  a job or a task is permitted. A write is permitted exactly when the actor is an admin,
  or a technician and the job's \<open>assigned_to\<close> is the actor, or a sales agent and the
  job's \<open>created_by\<close> is the actor; for a task the job is the one the task belongs to.
\<close>

theorem has_object_permission_rule:
  assumes "user_pk u = Some uid"
  shows "(m \<in> {GET, HEAD, OPTIONS} \<longrightarrow> has_object_permission d m u ob)
       \<and> (m \<notin> {GET, HEAD, OPTIONS} \<longrightarrow>
            has_object_permission d m u (JobObj j) =
              (user_role u = Admin
               \<or> (user_role u = Technician \<and> job_assigned_to j = Some uid)
               \<or> (user_role u = Sales_agent \<and> job_created_by j = Some uid)))
       \<and> (m \<notin> {GET, HEAD, OPTIONS} \<and> get_job d (task_job t) = Some j \<longrightarrow>
            has_object_permission d m u (TaskObj t) =
              (user_role u = Admin
               \<or> (user_role u = Technician \<and> job_assigned_to j = Some uid)
               \<or> (user_role u = Sales_agent \<and> job_created_by j = Some uid)))"
proof -
  have safe: "m \<in> set SAFE_METHODS \<longleftrightarrow> m \<in> {GET, HEAD, OPTIONS}"
    by (simp add: SAFE_METHODS_def)
  have fk: "fk_is x u \<longleftrightarrow> x = Some uid" for x
    using assms by (auto simp: fk_is_def)
  show ?thesis
    unfolding has_object_permission_def safe fk
    by (cases "user_role u") auto
qed

theorem has_object_permission_rule_witness:
  "has_object_permission ex_db GET ex_sales2 (JobObj ex_job)
   \<and> has_object_permission ex_db PATCH ex_tech (JobObj ex_job)
   \<and> \<not> has_object_permission ex_db PATCH ex_tech2 (JobObj ex_job)
   \<and> has_object_permission ex_db PUT ex_sales (TaskObj ex_task_b)
   \<and> \<not> has_object_permission ex_db PUT ex_sales2 (TaskObj ex_task_b)
   \<and> has_object_permission ex_db DELETE ex_admin (TaskObj ex_task_b)"
proof -
  have j: "get_job ex_db (task_job ex_task_b) = Some ex_job"
    by (simp add: get_job_def ex_db_def ex_task_b_def ex_job_def)
  have a: "job_assigned_to ex_job = Some 2" "job_created_by ex_job = Some 4"
    by (simp_all add: ex_job_def)
  show ?thesis
    using has_object_permission_rule [of ex_sales2 5 GET ex_db "JobObj ex_job"]
      has_object_permission_rule [of ex_tech 2 PATCH ex_db _ ex_job]
      has_object_permission_rule [of ex_tech2 3 PATCH ex_db _ ex_job]
      has_object_permission_rule [of ex_sales 4 PUT ex_db _ ex_job ex_task_b]
      has_object_permission_rule [of ex_sales2 5 PUT ex_db _ ex_job ex_task_b]
      has_object_permission_rule [of ex_admin 1 DELETE ex_db _ ex_job ex_task_b]
    by (simp add: j a ex_sales2_def ex_tech_def ex_tech2_def ex_sales_def ex_admin_def)
qed

section \<open>Listing tasks\<close>

lemma set_order_by: "set (order_by terms ts) = set ts"
  by (induction terms) (simp_all add: order_by_def split: prod.split)

lemma length_order_by: "length (order_by terms ts) = length ts"
  by (induction terms) (simp_all add: order_by_def split: prod.split)

lemma set_filter_opt:
  "set (filter_opt param cond qs) = {x \<in> set qs. \<forall>v. param = Some v \<longrightarrow> cond v x}"
  by (cases param) (auto simp: filter_opt_def)

text \<open>
  C9. In the task list, a technician sees exactly the tasks (matching the \<open>job\<close> and
  \<open>status\<close> parameters of the request) whose job is assigned to that technician. An
  actor with any other role, a sales agent as well as an admin, sees every task matching
  the parameters; without parameters that is every task of the table.
\<close>

theorem task_list_visibility:
  "(user_role (req_user r) = Technician \<longrightarrow>
      set (task_list d r) =
        {t \<in> set (db_tasks d).
           (\<forall>k. tq_job (req_query r) = Some k \<longrightarrow> task_job t = k)
           \<and> (\<forall>s. tq_status (req_query r) = Some s \<longrightarrow> task_status t = s)
           \<and> (\<exists>j. get_job d (task_job t) = Some j \<and> job_assigned_to j \<noteq> None
                    \<and> job_assigned_to j = user_pk (req_user r))})
   \<and> (user_role (req_user r) \<noteq> Technician \<longrightarrow>
      set (task_list d r) =
        {t \<in> set (db_tasks d).
           (\<forall>k. tq_job (req_query r) = Some k \<longrightarrow> task_job t = k)
           \<and> (\<forall>s. tq_status (req_query r) = Some s \<longrightarrow> task_status t = s)})
   \<and> (user_role (req_user r) \<noteq> Technician \<and> tq_job (req_query r) = None
        \<and> tq_status (req_query r) = None \<longrightarrow>
      set (task_list d r) = set (db_tasks d) \<and> length (task_list d r) = length (db_tasks d))"
proof -
  have tech: "(case get_job d (task_job t) of None \<Rightarrow> False
               | Some j \<Rightarrow> fk_is (job_assigned_to j) u)
              \<longleftrightarrow> (\<exists>j. get_job d (task_job t) = Some j \<and> job_assigned_to j \<noteq> None
                       \<and> job_assigned_to j = user_pk u)" for t u
    by (cases "get_job d (task_job t)") (simp_all add: fk_is_def)
  have s: "set (task_list d r) = set (task_get_queryset d (req_user r) (req_query r))"
    by (simp add: task_list_def set_order_by)
  have l: "length (task_list d r) = length (task_get_queryset d (req_user r) (req_query r))"
    by (simp add: task_list_def length_order_by)
  have none: "tq_job (req_query r) = None \<Longrightarrow> tq_status (req_query r) = None \<Longrightarrow>
      user_role (req_user r) \<noteq> Technician \<Longrightarrow>
      task_get_queryset d (req_user r) (req_query r) = db_tasks d"
    by (simp add: task_get_queryset_def filter_opt_def)
  have a: "user_role (req_user r) = Technician \<Longrightarrow>
      set (task_get_queryset d (req_user r) (req_query r)) =
        {t \<in> set (db_tasks d).
           (\<forall>k. tq_job (req_query r) = Some k \<longrightarrow> task_job t = k)
           \<and> (\<forall>s. tq_status (req_query r) = Some s \<longrightarrow> task_status t = s)
           \<and> (\<exists>j. get_job d (task_job t) = Some j \<and> job_assigned_to j \<noteq> None
                    \<and> job_assigned_to j = user_pk (req_user r))}"
    by (auto simp: task_get_queryset_def set_filter_opt tech)
  have b: "user_role (req_user r) \<noteq> Technician \<Longrightarrow>
      set (task_get_queryset d (req_user r) (req_query r)) =
        {t \<in> set (db_tasks d).
           (\<forall>k. tq_job (req_query r) = Some k \<longrightarrow> task_job t = k)
           \<and> (\<forall>s. tq_status (req_query r) = Some s \<longrightarrow> task_status t = s)}"
    by (auto simp: task_get_queryset_def set_filter_opt)
  show ?thesis
    using a b none by (simp add: s l)
qed

theorem task_list_visibility_witness:
  "set (task_list ex_db \<lparr>req_user = ex_tech, req_method = GET, req_query = no_task_query\<rparr>)
     = {ex_task_a, ex_task_b}
   \<and> set (task_list ex_db \<lparr>req_user = ex_sales2, req_method = GET, req_query = no_task_query\<rparr>)
     = {ex_task_a, ex_task_b, ex_task_c}
   \<and> length (task_list ex_db
        \<lparr>req_user = ex_sales2, req_method = GET, req_query = no_task_query\<rparr>) = 3"
proof -
  have "user_role ex_tech = Technician" "user_role ex_sales2 \<noteq> Technician"
    by (simp_all add: ex_tech_def ex_sales2_def)
  moreover have "tq_job no_task_query = None" "tq_status no_task_query = None"
    by (simp_all add: no_task_query_def)
  moreover have "get_job ex_db 1 = Some ex_job" "get_job ex_db 2 = Some ex_job_done"
    by (simp_all add: get_job_def ex_db_def ex_job_def ex_job_done_def)
  moreover have "job_assigned_to ex_job = user_pk ex_tech"
    "job_assigned_to ex_job_done \<noteq> user_pk ex_tech" "job_assigned_to ex_job \<noteq> None"
    by (simp_all add: ex_job_def ex_job_done_def ex_tech_def)
  moreover have "db_tasks ex_db = [ex_task_a, ex_task_b, ex_task_c]"
    by (simp add: ex_db_def)
  moreover have "task_job ex_task_a = 1" "task_job ex_task_b = 1" "task_job ex_task_c = 2"
    by (simp_all add: ex_task_a_def ex_task_b_def ex_task_c_def)
  ultimately show ?thesis
    using task_list_visibility
            [of "\<lparr>req_user = ex_tech, req_method = GET, req_query = no_task_query\<rparr>" ex_db]
      task_list_visibility
            [of "\<lparr>req_user = ex_sales2, req_method = GET, req_query = no_task_query\<rparr>" ex_db]
    by auto
qed

lemma sorted_insort_key_lex:
  fixes f :: "'a \<Rightarrow> int" and g :: "'a \<Rightarrow> int list"
  assumes "sorted (map (\<lambda>y. f y # g y) ys)" and "\<forall>y\<in>set ys. g x \<le> g y"
  shows "sorted (map (\<lambda>y. f y # g y) (insort_key f x ys))"
  using assms
proof (induction ys)
  case Nil
  then show ?case by simp
next
  case (Cons y ys)
  show ?case
  proof (cases "f x \<le> f y")
    case True
    have "f x # g x \<le> f z # g z" if z: "z \<in> set (y # ys)" for z
    proof -
      have "f y # g y \<le> f z # g z" using Cons.prems(1) z by auto
      then have "f y \<le> f z" by (auto simp: Cons_le_Cons)
      with True have "f x \<le> f z" by simp
      moreover have "g x \<le> g z" using Cons.prems(2) z by blast
      ultimately show ?thesis by (auto simp: Cons_le_Cons)
    qed
    then show ?thesis using True Cons.prems(1) by simp
  next
    case False
    then have "f y # g y \<le> f x # g x" by (simp add: Cons_le_Cons)
    moreover have "sorted (map (\<lambda>y. f y # g y) (insort_key f x ys))"
      using Cons.IH Cons.prems by simp
    ultimately show ?thesis using False Cons.prems(1) by (auto simp: set_insort_key)
  qed
qed

lemma sorted_sort_key_lex:
  fixes f :: "'a \<Rightarrow> int" and g :: "'a \<Rightarrow> int list"
  assumes "sorted (map g xs)"
  shows "sorted (map (\<lambda>y. f y # g y) (sort_key f xs))"
  using assms
proof (induction xs)
  case Nil
  then show ?case by simp
next
  case (Cons x xs)
  from Cons.prems have tl: "sorted (map g xs)" and hd: "\<forall>y\<in>set xs. g x \<le> g y"
    by simp_all
  have "sorted (map (\<lambda>y. f y # g y) (insort_key f x (sort_key f xs)))"
  proof (rule sorted_insort_key_lex)
    show "sorted (map (\<lambda>y. f y # g y) (sort_key f xs))" using tl by (rule Cons.IH)
    show "\<forall>y\<in>set (sort_key f xs). g x \<le> g y" using hd by simp
  qed
  then show ?case by simp
qed

lemma sorted_order_by:
  "sorted (map (\<lambda>t. map (\<lambda>term. if fst term then - task_field (snd term) t
                                   else task_field (snd term) t) terms)
             (order_by terms ts))"
proof (induction terms)
  case Nil
  show ?case by (simp add: sorted_wrt_map)
next
  case (Cons a terms)
  obtain desc f where a: "a = (desc, f)" by (cases a)
  have ob: "order_by ((desc, f) # terms) ts =
          sort_key (\<lambda>t. if desc then - task_field f t else task_field f t) (order_by terms ts)"
    by (simp add: order_by_def)
  have "sorted (map (\<lambda>t. (if desc then - task_field f t else task_field f t) #
                        map (\<lambda>term. if fst term then - task_field (snd term) t
                                       else task_field (snd term) t) terms)
                  (sort_key (\<lambda>t. if desc then - task_field f t else task_field f t)
                     (order_by terms ts)))"
    using Cons.IH by (rule sorted_sort_key_lex)
  then show ?case
    by (simp only: a ob list.map fst_conv snd_conv)
qed

lemma mset_order_by: "mset (order_by terms ts) = mset ts"
  by (induction terms) (simp_all add: order_by_def split: prod.split)

lemma sorted_singleton_keys:
  fixes f :: "'a \<Rightarrow> int"
  shows "sorted (map (\<lambda>t. [f t]) xs) \<longleftrightarrow> sorted (map f xs)"
  by (simp add: sorted_wrt_map order.order_iff_strict)

lemma sorted_negated:
  fixes f :: "'a \<Rightarrow> int"
  shows "sorted (map (\<lambda>t. - f t) xs) \<longleftrightarrow> sorted (rev (map f xs))"
  by (simp add: sorted_wrt_map sorted_wrt_rev rev_map [symmetric])

lemma sorted_map_int: "sorted (map int xs) \<longleftrightarrow> sorted xs"
  by (simp add: sorted_wrt_map)

lemma named_terms:
  "filter (\<lambda>(desc, f). f \<in> set ordering_fields) terms
     = filter (\<lambda>term. snd term = ''order'' \<or> snd term = ''created_at'') terms"
  by (rule filter_cong) (auto simp: ordering_fields_def)

lemma task_list_single_term:
  "tq_ordering (req_query r) = [(desc, f)] \<Longrightarrow> f = ''order'' \<or> f = ''created_at'' \<Longrightarrow>
   task_list d r = sort_key (\<lambda>t. if desc then - task_field f t else task_field f t)
                     (task_get_queryset d (req_user r) (req_query r))"
  by (auto simp: task_list_def get_ordering_def ordering_fields_def order_by_def)

text \<open>
  C8, as the code has it. The tasks of a job read through the job (the nested \<open>tasks\<close>
  of the job detail) are the job's tasks sorted by \<open>order\<close> ascending, tasks of equal
  \<open>order\<close> by creation time ascending. The task list route returns the tasks of its
  queryset ordered by the \<open>ordering\<close> parameter of the request: by the terms that name
  \<open>order\<close> or \<open>created_at\<close>, the first term first and each later term among the tasks
  that agree on the earlier ones, a term ascending, or descending when it is written
  with a minus sign. So \<open>order\<close> lists by order ascending, \<open>-order\<close> by order descending,
  \<open>created_at\<close> by creation time ascending and \<open>-created_at\<close> descending. When the
  parameter names neither field, the list is sorted by \<open>order\<close> ascending.
\<close>

theorem task_ordering:
  "sorted (map (\<lambda>t. (task_order t, task_created_at t)) (job_tasks d k))
   \<and> set (job_tasks d k) = {t \<in> set (db_tasks d). task_job t = k}
   \<and> mset (task_list d r) = mset (task_get_queryset d (req_user r) (req_query r))
   \<and> (filter (\<lambda>term. snd term = ''order'' \<or> snd term = ''created_at'')
          (tq_ordering (req_query r)) \<noteq> []
        \<longrightarrow> sorted (map (\<lambda>t. map (\<lambda>term.
                      if fst term
                      then - (if snd term = ''order'' then int (task_order t)
                              else task_created_at t)
                      else (if snd term = ''order'' then int (task_order t)
                            else task_created_at t))
                    (filter (\<lambda>term. snd term = ''order'' \<or> snd term = ''created_at'')
                       (tq_ordering (req_query r))))
                  (task_list d r)))
   \<and> (tq_ordering (req_query r) = [(False, ''order'')]
        \<longrightarrow> sorted (map task_order (task_list d r)))
   \<and> (tq_ordering (req_query r) = [(True, ''order'')]
        \<longrightarrow> sorted (rev (map task_order (task_list d r))))
   \<and> (tq_ordering (req_query r) = [(False, ''created_at'')]
        \<longrightarrow> sorted (map task_created_at (task_list d r)))
   \<and> (tq_ordering (req_query r) = [(True, ''created_at'')]
        \<longrightarrow> sorted (rev (map task_created_at (task_list d r))))
   \<and> ((\<forall>term \<in> set (tq_ordering (req_query r)).
          snd term \<noteq> ''order'' \<and> snd term \<noteq> ''created_at'')
        \<longrightarrow> sorted (map task_order (task_list d r)))"
proof -
  let ?qs = "task_get_queryset d (req_user r) (req_query r)"
  let ?named = "filter (\<lambda>term. snd term = ''order'' \<or> snd term = ''created_at'')
                  (tq_ordering (req_query r))"
  have 1: "sorted (map (\<lambda>t. (task_order t, task_created_at t)) (job_tasks d k))"
    by (simp add: job_tasks_def meta_ordering_def)
  have 2: "set (job_tasks d k) = {t \<in> set (db_tasks d). task_job t = k}"
    by (auto simp: job_tasks_def meta_ordering_def)
  have 3: "mset (task_list d r) = mset ?qs"
    by (simp add: task_list_def mset_order_by)
  have 4: "sorted (map (\<lambda>t. map (\<lambda>term.
                      if fst term
                      then - (if snd term = ''order'' then int (task_order t)
                              else task_created_at t)
                      else (if snd term = ''order'' then int (task_order t)
                            else task_created_at t)) ?named)
                  (task_list d r))"
    if ne: "?named \<noteq> []"
  proof -
    from ne have "get_ordering (tq_ordering (req_query r)) = ?named"
      by (simp add: get_ordering_def named_terms)
    then have "task_list d r = order_by ?named ?qs"
      by (simp add: task_list_def)
    then show ?thesis
      using sorted_order_by [of ?named ?qs] unfolding task_field_def by simp
  qed
  have asc_order: "sorted (map task_order (task_list d r))"
    if "tq_ordering (req_query r) = [(False, ''order'')]"
  proof -
    have "task_list d r = sort_key (\<lambda>t. int (task_order t)) ?qs"
      using task_list_single_term [OF that, of d] by (simp add: task_field_def)
    then have "sorted (map (\<lambda>t. int (task_order t)) (task_list d r))" by simp
    then have "sorted (map int (map task_order (task_list d r)))" by (simp add: comp_def)
    then show ?thesis by (simp only: sorted_map_int)
  qed
  have desc_order: "sorted (rev (map task_order (task_list d r)))"
    if "tq_ordering (req_query r) = [(True, ''order'')]"
  proof -
    have "task_list d r = sort_key (\<lambda>t. - int (task_order t)) ?qs"
      using task_list_single_term [OF that, of d] by (simp add: task_field_def)
    then have "sorted (map (\<lambda>t. - int (task_order t)) (task_list d r))" by simp
    then have "sorted (rev (map (\<lambda>t. int (task_order t)) (task_list d r)))"
      by (simp only: sorted_negated)
    then have "sorted (map int (rev (map task_order (task_list d r))))"
      by (simp add: rev_map comp_def)
    then show ?thesis by (simp only: sorted_map_int)
  qed
  have asc_created: "sorted (map task_created_at (task_list d r))"
    if "tq_ordering (req_query r) = [(False, ''created_at'')]"
  proof -
    have "task_list d r = sort_key task_created_at ?qs"
      using task_list_single_term [OF that, of d] by (simp add: task_field_def)
    then show ?thesis by simp
  qed
  have desc_created: "sorted (rev (map task_created_at (task_list d r)))"
    if "tq_ordering (req_query r) = [(True, ''created_at'')]"
  proof -
    have "task_list d r = sort_key (\<lambda>t. - task_created_at t) ?qs"
      using task_list_single_term [OF that, of d] by (simp add: task_field_def)
    then have "sorted (map (\<lambda>t. - task_created_at t) (task_list d r))" by simp
    then show ?thesis by (simp only: sorted_negated)
  qed
  have default: "sorted (map task_order (task_list d r))"
    if none: "\<forall>term \<in> set (tq_ordering (req_query r)).
                snd term \<noteq> ''order'' \<and> snd term \<noteq> ''created_at''"
  proof -
    have "?named = []"
      using none by (auto simp: filter_empty_conv)
    then have "get_ordering (tq_ordering (req_query r)) = view_ordering"
      by (simp add: get_ordering_def named_terms)
    then have tl: "task_list d r = sort_key (\<lambda>t. int (task_order t)) ?qs"
      by (simp add: task_list_def order_by_def view_ordering_def task_field_def)
    have "sorted (map (\<lambda>t. int (task_order t)) (task_list d r))"
      unfolding tl by (rule sorted_sort_key)
    then have "sorted (map int (map task_order (task_list d r)))" by (simp add: comp_def)
    then show ?thesis by (simp only: sorted_map_int)
  qed
  show ?thesis
    using 1 2 3 4 asc_order desc_order asc_created desc_created default by blast
qed

theorem task_ordering_witness:
  "map task_pk (job_tasks ex_db 1) = [Some 2, Some 1]
   \<and> sorted (map (\<lambda>t. (task_order t, task_created_at t)) (job_tasks ex_db 1))
   \<and> map task_order (task_list ex_db
        \<lparr>req_user = ex_admin, req_method = GET,
         req_query = no_task_query\<lparr>tq_ordering := [(True, ''order'')]\<rparr>\<rparr>) = [2, 1, 0]
   \<and> sorted (rev (map task_order (task_list ex_db
        \<lparr>req_user = ex_admin, req_method = GET,
         req_query = no_task_query\<lparr>tq_ordering := [(True, ''order'')]\<rparr>\<rparr>)))
   \<and> map task_created_at (task_list ex_db
        \<lparr>req_user = ex_admin, req_method = GET,
         req_query = no_task_query\<lparr>tq_ordering := [(False, ''created_at'')]\<rparr>\<rparr>) = [2, 3, 5]
   \<and> sorted (map task_created_at (task_list ex_db
        \<lparr>req_user = ex_admin, req_method = GET,
         req_query = no_task_query\<lparr>tq_ordering := [(False, ''created_at'')]\<rparr>\<rparr>))
   \<and> sorted (map task_order (task_list ex_db
        \<lparr>req_user = ex_admin, req_method = GET,
         req_query = no_task_query\<lparr>tq_ordering := [(True, ''title'')]\<rparr>\<rparr>))
   \<and> map task_pk (task_list ex_db
        \<lparr>req_user = ex_admin, req_method = GET,
         req_query = no_task_query\<lparr>tq_ordering := [(True, ''title'')]\<rparr>\<rparr>)
       = [Some 3, Some 2, Some 1]"
proof -
  let ?r = "\<lparr>req_user = ex_admin, req_method = GET,
            req_query = no_task_query\<lparr>tq_ordering := [(True, ''title'')]\<rparr>\<rparr>"
  let ?rd = "\<lparr>req_user = ex_admin, req_method = GET,
             req_query = no_task_query\<lparr>tq_ordering := [(True, ''order'')]\<rparr>\<rparr>"
  let ?rc = "\<lparr>req_user = ex_admin, req_method = GET,
             req_query = no_task_query\<lparr>tq_ordering := [(False, ''created_at'')]\<rparr>\<rparr>"
  have 1: "map task_pk (job_tasks ex_db 1) = [Some 2, Some 1]"
    by code_simp
  have 2: "map task_pk (task_list ex_db ?r) = [Some 3, Some 2, Some 1]"
    by code_simp
  have 5: "map task_order (task_list ex_db ?rd) = [2, 1, 0]"
    by code_simp
  have 6: "map task_created_at (task_list ex_db ?rc) = [2, 3, 5]"
    by code_simp
  have h: "\<forall>term \<in> set (tq_ordering (req_query ?r)).
             snd term \<noteq> ''order'' \<and> snd term \<noteq> ''created_at''"
    by (simp add: no_task_query_def)
  have hd: "tq_ordering (req_query ?rd) = [(True, ''order'')]"
    by (simp add: no_task_query_def)
  have hc: "tq_ordering (req_query ?rc) = [(False, ''created_at'')]"
    by (simp add: no_task_query_def)
  note t = task_ordering [of ex_db 1 ?r]
  from t have 3: "sorted (map (\<lambda>t. (task_order t, task_created_at t)) (job_tasks ex_db 1))"
    by blast
  from t h have 4: "sorted (map task_order (task_list ex_db ?r))"
    by blast
  from task_ordering [of ex_db 1 ?rd] hd
  have 7: "sorted (rev (map task_order (task_list ex_db ?rd)))"
    by blast
  from task_ordering [of ex_db 1 ?rc] hc
  have 8: "sorted (map task_created_at (task_list ex_db ?rc))"
    by blast
  show ?thesis by (intro conjI 1 2 3 4 5 6 7 8)
qed

theorem task_list_descending_counterexample:
  "map task_order (task_list ex_db
      \<lparr>req_user = ex_admin, req_method = GET,
       req_query = \<lparr>tq_job = Some 1, tq_status = None, tq_ordering = [(True, ''order'')]\<rparr>\<rparr>)
     = [2, 1]
   \<and> \<not> sorted (map task_order (task_list ex_db
      \<lparr>req_user = ex_admin, req_method = GET,
       req_query = \<lparr>tq_job = Some 1, tq_status = None, tq_ordering = [(True, ''order'')]\<rparr>\<rparr>))"
  by (simp add: task_list_def get_ordering_def ordering_fields_def order_by_def task_field_def
      task_get_queryset_def filter_opt_def ex_db_def ex_admin_def ex_task_a_def ex_task_b_def
      ex_task_c_def)

section \<open>The overdue sweep\<close>

lemma count_changed_rows:
  "length (filter (\<lambda>(a, b). a \<noteq> b)
     (zip js (map (\<lambda>j. if is_overdue_candidate today j then j\<lparr>job_overdue := True\<rparr> else j) js)))
   = length (filter (is_overdue_candidate today) js)"
proof (induction js)
  case Nil show ?case by simp
next
  case (Cons j js)
  have "is_overdue_candidate today j \<Longrightarrow> j \<noteq> j\<lparr>job_overdue := True\<rparr>"
  proof
    assume c: "is_overdue_candidate today j" and e: "j = j\<lparr>job_overdue := True\<rparr>"
    from e have "job_overdue j = job_overdue (j\<lparr>job_overdue := True\<rparr>)" by simp
    then have "job_overdue j" by simp
    with c show False by (simp add: is_overdue_candidate_def)
  qed
  then show ?case using Cons.IH by simp
qed

lemma str_nat_0: "str_nat 0 = ''0''"
  by (simp add: str_nat.simps)

text \<open>
  C6, as the code has it. The sweep sets \<open>overdue\<close> on exactly the jobs scheduled before
  today whose status is pending or in progress and which are not yet flagged; every
  other job, every other field and every other table, the change log among them, stays
  as it was. It returns the message \<open>Marked n jobs as overdue\<close>, where \<open>n\<close> is the
  number of rows it changed. A second sweep on the same day changes nothing and reports
  0.
\<close>

theorem check_overdue_jobs_effect:
  assumes "check_overdue_jobs today d = (d', res)"
  shows "length (db_jobs d') = length (db_jobs d)
       \<and> (\<forall>i < length (db_jobs d).
            db_jobs d' ! i =
              (if job_scheduled_date (db_jobs d ! i) < today
                  \<and> job_status (db_jobs d ! i) \<in> {Pending, In_progress}
                  \<and> \<not> job_overdue (db_jobs d ! i)
               then (db_jobs d ! i)\<lparr>job_overdue := True\<rparr> else db_jobs d ! i))
       \<and> db_users d' = db_users d \<and> db_tasks d' = db_tasks d \<and> db_logs d' = db_logs d
       \<and> res = PyStr (''Marked ''
                  @ str_nat (length (filter (\<lambda>(a, b). a \<noteq> b) (zip (db_jobs d) (db_jobs d'))))
                  @ '' jobs as overdue'')
       \<and> check_overdue_jobs today d' = (d', PyStr ''Marked 0 jobs as overdue'')"
proof -
  let ?upd = "\<lambda>j. if is_overdue_candidate today j then j\<lparr>job_overdue := True\<rparr> else j"
  from assms have d': "d' = d\<lparr>db_jobs := map ?upd (db_jobs d)\<rparr>"
    and res: "res = PyStr (''Marked ''
                @ str_nat (length (filter (is_overdue_candidate today) (db_jobs d)))
                @ '' jobs as overdue'')"
    by (simp_all add: check_overdue_jobs_def Let_def)
  have jobs: "db_jobs d' = map ?upd (db_jobs d)" by (simp add: d')
  have cand: "is_overdue_candidate today j \<longleftrightarrow>
                job_scheduled_date j < today \<and> job_status j \<in> {Pending, In_progress}
                \<and> \<not> job_overdue j" for j
    by (simp add: is_overdue_candidate_def)
  have rows: "\<forall>i < length (db_jobs d).
            db_jobs d' ! i =
              (if job_scheduled_date (db_jobs d ! i) < today
                  \<and> job_status (db_jobs d ! i) \<in> {Pending, In_progress}
                  \<and> \<not> job_overdue (db_jobs d ! i)
               then (db_jobs d ! i)\<lparr>job_overdue := True\<rparr> else db_jobs d ! i)"
    by (simp add: jobs cand)
  have count: "length (filter (\<lambda>(a, b). a \<noteq> b) (zip (db_jobs d) (db_jobs d')))
                 = length (filter (is_overdue_candidate today) (db_jobs d))"
    unfolding jobs by (rule count_changed_rows)
  have none: "filter (is_overdue_candidate today) (map ?upd js) = []" for js
    by (induction js) (simp_all add: is_overdue_candidate_def)
  have same: "map ?upd (map ?upd js) = map ?upd js" for js
    by (induction js) (simp_all add: is_overdue_candidate_def)
  have again: "check_overdue_jobs today d' = (d', PyStr ''Marked 0 jobs as overdue'')"
    unfolding check_overdue_jobs_def Let_def jobs none
    by (simp add: d' same str_nat_0)
  have len: "length (db_jobs d') = length (db_jobs d)" by (simp add: jobs)
  have others: "db_users d' = db_users d \<and> db_tasks d' = db_tasks d \<and> db_logs d' = db_logs d"
    by (simp add: d')
  have msg: "res = PyStr (''Marked ''
                  @ str_nat (length (filter (\<lambda>(a, b). a \<noteq> b) (zip (db_jobs d) (db_jobs d'))))
                  @ '' jobs as overdue'')"
    by (simp only: count res)
  show ?thesis
    using len rows others msg again by blast
qed

theorem check_overdue_jobs_effect_witness:
  "map job_overdue (db_jobs (fst (check_overdue_jobs 10 ex_db))) = [True, False, False]
   \<and> snd (check_overdue_jobs 10 ex_db) = PyStr ''Marked 1 jobs as overdue''
   \<and> check_overdue_jobs 10 (fst (check_overdue_jobs 10 ex_db))
       = (fst (check_overdue_jobs 10 ex_db), PyStr ''Marked 0 jobs as overdue'')"
  using check_overdue_jobs_effect [OF surjective_pairing, of 10 ex_db]
  by (simp add: check_overdue_jobs_def is_overdue_candidate_def ex_db_def ex_job_def
      ex_job_done_def ex_job_empty_def str_nat.simps Let_def)

theorem check_overdue_jobs_result_counterexample:
  "length (filter (is_overdue_candidate 10) (db_jobs ex_db)) = 1
   \<and> snd (check_overdue_jobs 10 ex_db) = PyStr ''Marked 1 jobs as overdue''
   \<and> snd (check_overdue_jobs 10 ex_db) \<noteq> PyInt 1"
  by (simp add: check_overdue_jobs_def is_overdue_candidate_def ex_db_def ex_job_def
      ex_job_done_def ex_job_empty_def str_nat.simps Let_def)

section \<open>Saving and completing a job\<close>

lemma store_job_row:
  assumes "store_job now d j = (d', j')"
  shows "\<exists>k. job_pk j' = Some k \<and> get_job d' k = Some j'"
proof (cases "job_pk j")
  case None
  let ?k = "next_pk (map job_pk (db_jobs d))"
  from None assms
  have j': "j' = j\<lparr>job_pk := Some ?k, job_created_at := now, job_updated_at := now\<rparr>"
    and d': "db_jobs d' = db_jobs d @ [j']"
    by (auto simp: store_job_def Let_def)
  have "\<forall>x\<in>set (db_jobs d). \<not> job_pk x = Some ?k"
    using next_pk_fresh_row [where pk=job_pk and rows="db_jobs d"] by blast
  then have "find (\<lambda>r. job_pk r = Some ?k) (db_jobs d @ [j']) = Some j'"
    by (rule find_append_new) (simp add: j')
  then show ?thesis using d' j' by (simp add: get_job_def)
next
  case (Some k)
  show ?thesis
  proof (cases "list_ex (\<lambda>r. job_pk r = Some k) (db_jobs d)")
    case True
    with Some assms have j': "j' = j\<lparr>job_updated_at := now\<rparr>"
      and d': "db_jobs d' = map (\<lambda>r. if job_pk r = Some k then j' else r) (db_jobs d)"
      by (auto simp: store_job_def Let_def)
    have pk: "job_pk j' = Some k" using j' Some by simp
    from True have "\<exists>x\<in>set (db_jobs d). job_pk x = Some k" by (simp add: list_ex_iff)
    then have "find (\<lambda>r. job_pk r = Some k)
                 (map (\<lambda>r. if job_pk r = Some k then j' else r) (db_jobs d)) = Some j'"
      by (rule find_replace) (rule pk)
    then show ?thesis using d' pk by (simp add: get_job_def)
  next
    case False
    with Some assms
    have j': "j' = j\<lparr>job_updated_at := now, job_created_at := now\<rparr>"
      and d': "db_jobs d' = db_jobs d @ [j']"
      by (auto simp: store_job_def Let_def)
    have pk: "job_pk j' = Some k" using j' Some by simp
    from False have "\<forall>x\<in>set (db_jobs d). \<not> job_pk x = Some k" by (simp add: list_ex_iff)
    then have "find (\<lambda>r. job_pk r = Some k) (db_jobs d @ [j']) = Some j'"
      by (rule find_append_new) (rule pk)
    then show ?thesis using d' pk by (simp add: get_job_def)
  qed
qed

lemma store_job_fields:
  "job_status (snd (store_job now d j)) = job_status j
   \<and> job_assigned_to (snd (store_job now d j)) = job_assigned_to j
   \<and> (job_pk j \<noteq> None \<longrightarrow> job_pk (snd (store_job now d j)) = job_pk j)"
  by (simp add: store_job_def Let_def split: option.split)

lemma store_job_others:
  "db_logs (fst (store_job now d j)) = db_logs d
   \<and> db_tasks (fst (store_job now d j)) = db_tasks d
   \<and> db_users (fst (store_job now d j)) = db_users d"
  by (simp add: store_job_def Let_def split: option.split)

lemma store_job_new_pk:
  "job_pk j = None \<Longrightarrow>
   job_pk (snd (store_job now d j)) = Some (next_pk (map job_pk (db_jobs d)))"
  by (simp add: store_job_def Let_def)

lemma can_complete_iff:
  "can_complete d j \<longleftrightarrow>
     (\<forall>k. job_pk j = Some k \<longrightarrow>
        (\<forall>t\<in>set (db_tasks d). task_job t = k \<longrightarrow> task_status t = TCompleted))"
proof (cases "job_pk j")
  case None
  then show ?thesis by (simp add: can_complete_def)
next
  case (Some k)
  have "task_status t \<noteq> TPending \<and> task_status t \<noteq> TIn_progress
          \<longleftrightarrow> task_status t = TCompleted" for t
    by (cases "task_status t") simp_all
  then show ?thesis using Some
    by (auto simp: can_complete_def Let_def list_ex_iff)
qed

lemma job_save_ok:
  assumes "model_field_errors V d j = []" and "job_status j = Completed \<longrightarrow> can_complete d j"
  shows "job_save V now d j = (fst (store_job now d j), Inr (snd (store_job now d j)))"
  using assms by (auto simp: job_save_def full_clean_def job_clean_def Let_def split: prod.split)

lemma job_save_Inr:
  assumes "job_save V now d j = (d', Inr j')"
  shows "store_job now d j = (d', j') \<and> (job_status j = Completed \<longrightarrow> can_complete d j)"
proof -
  from assms have ok: "full_clean V d j = Inr ()"
    by (cases "full_clean V d j") (auto simp: job_save_def)
  then have "job_clean d j = []"
    by (auto simp: full_clean_def Let_def split: if_splits)
  then have c: "job_status j = Completed \<longrightarrow> can_complete d j"
    by (auto simp: job_clean_def split: if_splits)
  from assms ok have "store_job now d j = (d', j')"
    by (auto simp: job_save_def split: prod.splits)
  with c show ?thesis by simp
qed

text \<open>
  C1, as the code has it. A save of a job with status completed that owns a pending or
  in-progress task raises a validation error and writes nothing, whichever path called
  the save. So when a job has been saved with status completed, every task it owns at
  that moment is completed (the tasks refer to stored jobs). A job without a key, and a
  job without tasks, can be completed. The rule is checked when a job is saved, not when
  a task is.
\<close>

theorem job_save_completion_rule:
  "(job_status j = Completed \<and> job_pk j = Some k
      \<and> (\<exists>t\<in>set (db_tasks d). task_job t = k \<and> task_status t \<in> {TPending, TIn_progress})
     \<longrightarrow> (\<exists>msgs. job_save V now d j = (d, Inl (ValidationError msgs))
                 \<and> cannot_complete_msg \<in> set msgs))
   \<and> (\<forall>d' j'. job_save V now d j = (d', Inr j') \<and> job_status j = Completed
         \<and> (\<forall>t\<in>set (db_tasks d). \<exists>j0\<in>set (db_jobs d). job_pk j0 = Some (task_job t))
       \<longrightarrow> job_status j' = Completed
           \<and> (\<exists>k'. job_pk j' = Some k' \<and> get_job d' k' = Some j'
                 \<and> (\<forall>t\<in>set (db_tasks d'). task_job t = k' \<longrightarrow> task_status t = TCompleted)))
   \<and> (job_pk j = None \<longrightarrow> can_complete d j)
   \<and> (job_pk j = Some k \<and> (\<forall>t\<in>set (db_tasks d). task_job t \<noteq> k) \<longrightarrow> can_complete d j)"
proof -
  have rejected: "\<exists>msgs. job_save V now d j = (d, Inl (ValidationError msgs))
                     \<and> cannot_complete_msg \<in> set msgs"
    if st: "job_status j = Completed" and pk: "job_pk j = Some k"
      and t: "\<exists>t\<in>set (db_tasks d). task_job t = k \<and> task_status t \<in> {TPending, TIn_progress}"
  proof -
    from t pk have "\<not> can_complete d j" by (auto simp: can_complete_iff)
    with st have "job_clean d j = [cannot_complete_msg]" by (simp add: job_clean_def)
    then show ?thesis by (simp add: job_save_def full_clean_def Let_def)
  qed
  have saved: "job_status j' = Completed
           \<and> (\<exists>k'. job_pk j' = Some k' \<and> get_job d' k' = Some j'
                 \<and> (\<forall>t\<in>set (db_tasks d'). task_job t = k' \<longrightarrow> task_status t = TCompleted))"
    if sv: "job_save V now d j = (d', Inr j')" and st: "job_status j = Completed"
      and fk: "\<forall>t\<in>set (db_tasks d). \<exists>j0\<in>set (db_jobs d). job_pk j0 = Some (task_job t)"
    for d' j'
  proof -
    from sv have store: "store_job now d j = (d', j')" and "job_status j = Completed \<longrightarrow> can_complete d j"
      using job_save_Inr by blast+
    with st have cc: "can_complete d j" by simp
    from store have j': "j' = snd (store_job now d j)" and d': "d' = fst (store_job now d j)"
      by simp_all
    have st': "job_status j' = Completed" using st store_job_fields [of now d j] by (simp add: j')
    have tasks: "db_tasks d' = db_tasks d" using store_job_others [of now d j] by (simp add: d')
    from store obtain k' where k': "job_pk j' = Some k'" "get_job d' k' = Some j'"
      using store_job_row by blast
    have "task_status t = TCompleted" if tin: "t \<in> set (db_tasks d)" and tj: "task_job t = k'" for t
    proof (cases "job_pk j")
      case None
      then have "k' = next_pk (map job_pk (db_jobs d))"
        using k'(1) store_job_new_pk [of j now d] by (simp add: j')
      moreover from fk tin obtain j0 where "j0 \<in> set (db_jobs d)" "job_pk j0 = Some (task_job t)"
        by blast
      ultimately show ?thesis
        using next_pk_fresh_row [where pk=job_pk and rows="db_jobs d" and r=j0] tj by simp
    next
      case (Some k0)
      then have "job_pk j' = Some k0" using store_job_fields [of now d j] by (simp add: j')
      with k'(1) have "k0 = k'" by simp
      with cc Some tin tj show ?thesis by (simp add: can_complete_iff)
    qed
    with st' k' tasks show ?thesis by auto
  qed
  have new: "job_pk j = None \<longrightarrow> can_complete d j" by (simp add: can_complete_def)
  have empty: "job_pk j = Some k \<and> (\<forall>t\<in>set (db_tasks d). task_job t \<noteq> k) \<longrightarrow> can_complete d j"
    by (auto simp: can_complete_iff)
  show ?thesis using rejected saved new empty by blast
qed

lemmas ex_defs = ex_V_def ex_admin_def ex_tech_def ex_tech2_def ex_sales_def ex_sales2_def
  ex_job_def ex_job_done_def ex_job_empty_def ex_task_a_def ex_task_b_def ex_task_c_def
  ex_db_def no_job_query_def no_task_query_def no_job_patch_def no_task_patch_def

lemmas model_defs = can_complete_def job_clean_def full_clean_def job_save_def store_job_def
  task_save_def store_task_def changelog_create_def get_job_def get_task_def get_user_def
  fk_is_def has_object_permission_def SAFE_METHODS_def filter_opt_def set_opt_def
  job_get_queryset_def job_get_object_def task_get_queryset_def task_get_object_def
  cannot_complete_msg_def Let_def

theorem job_save_completion_rule_witness:
  "job_status (ex_job\<lparr>job_status := Completed\<rparr>) = Completed
   \<and> (\<exists>t\<in>set (db_tasks ex_db). task_job t = 1 \<and> task_status t \<in> {TPending, TIn_progress})
   \<and> job_save ex_V 20 ex_db (ex_job\<lparr>job_status := Completed\<rparr>)
       = (ex_db, Inl (ValidationError [cannot_complete_msg]))
   \<and> list_all (\<lambda>t. list_ex (\<lambda>j0. job_pk j0 = Some (task_job t)) (db_jobs ex_db))
        (db_tasks ex_db)
   \<and> snd (job_save ex_V 20 ex_db (ex_job_empty\<lparr>job_status := Completed\<rparr>))
       = Inr (ex_job_empty\<lparr>job_status := Completed, job_updated_at := 20\<rparr>)
   \<and> get_job (fst (job_save ex_V 20 ex_db (ex_job_empty\<lparr>job_status := Completed\<rparr>))) 3
       = Some (ex_job_empty\<lparr>job_status := Completed, job_updated_at := 20\<rparr>)
   \<and> can_complete ex_db ex_job_empty"
  using job_save_completion_rule [of "ex_job\<lparr>job_status := Completed\<rparr>" 1 ex_db ex_V 20]
    job_save_completion_rule [of "ex_job_empty\<lparr>job_status := Completed\<rparr>" 3 ex_db ex_V 20]
  by (simp add: ex_defs model_defs)

theorem completed_job_open_task_counterexample:
  "map_option job_status (get_job ex_db 2) = Some Completed
   \<and> map task_status (job_tasks ex_db 2) = [TCompleted]
   \<and> \<not> isl (snd (update_task ex_V 20 ex_db
            \<lparr>req_user = ex_tech2, req_method = PATCH, req_query = no_task_query\<rparr> 3
            (no_task_patch\<lparr>tp_status := Some TPending\<rparr>)))
   \<and> map_option job_status (get_job (fst (update_task ex_V 20 ex_db
            \<lparr>req_user = ex_tech2, req_method = PATCH, req_query = no_task_query\<rparr> 3
            (no_task_patch\<lparr>tp_status := Some TPending\<rparr>))) 2) = Some Completed
   \<and> map task_status (job_tasks (fst (update_task ex_V 20 ex_db
            \<lparr>req_user = ex_tech2, req_method = PATCH, req_query = no_task_query\<rparr> 3
            (no_task_patch\<lparr>tp_status := Some TPending\<rparr>))) 2) = [TPending]"
  by (simp add: ex_defs model_defs update_task_def task_perform_update_def task_is_valid_def
      validate_order_def task_apply_patch_def job_tasks_def meta_ordering_def task_changes_def)

lemma set_job_get_queryset: "set (job_get_queryset d u q) \<subseteq> set (db_jobs d)"
  by (auto simp: job_get_queryset_def set_filter_opt Let_def)

lemma set_task_get_queryset: "set (task_get_queryset d u q) \<subseteq> set (db_tasks d)"
  by (auto simp: task_get_queryset_def set_filter_opt Let_def)

lemma find_SomeD: "find P xs = Some x \<Longrightarrow> P x \<and> x \<in> set xs"
  by (induction xs) (auto split: if_splits)

lemma job_get_object_Inr:
  assumes "job_get_object d r pk = Inr j"
  shows "job_pk j = Some pk \<and> j \<in> set (db_jobs d)"
proof -
  from assms
  have "find (\<lambda>j. job_pk j = Some pk) (job_get_queryset d (req_user r) (req_query r)) = Some j"
    by (auto simp: job_get_object_def split: option.splits if_splits)
  then have "job_pk j = Some pk \<and> j \<in> set (job_get_queryset d (req_user r) (req_query r))"
    by (rule find_SomeD)
  then show ?thesis using set_job_get_queryset by blast
qed

lemma task_get_object_Inr:
  assumes "task_get_object d r pk = Inr t"
  shows "task_pk t = Some pk \<and> t \<in> set (db_tasks d)"
proof -
  from assms
  have "find (\<lambda>t. task_pk t = Some pk) (task_get_queryset d (req_user r) (req_query r)) = Some t"
    by (auto simp: task_get_object_def split: option.splits if_splits)
  then have "task_pk t = Some pk \<and> t \<in> set (task_get_queryset d (req_user r) (req_query r))"
    by (rule find_SomeD)
  then show ?thesis using set_task_get_queryset by blast
qed

lemma can_complete_pk: "job_pk j1 = job_pk j2 \<Longrightarrow> can_complete d j1 = can_complete d j2"
  by (simp add: can_complete_def)

lemma get_job_changelog_create [simp]:
  "get_job (changelog_create now d jid uid act chg) k = get_job d k"
  by (simp add: get_job_def changelog_create_def)

lemma get_task_changelog_create [simp]:
  "get_task (changelog_create now d jid uid act chg) k = get_task d k"
  by (simp add: get_task_def changelog_create_def)

lemma tables_changelog_create [simp]:
  "db_tasks (changelog_create now d jid uid act chg) = db_tasks d"
  "db_users (changelog_create now d jid uid act chg) = db_users d"
  "db_jobs (changelog_create now d jid uid act chg) = db_jobs d"
  by (simp_all add: changelog_create_def)

section \<open>Completing a job\<close>

text \<open>
  For a job that the request can fetch (it is in the actor's queryset and the actor
  may write to it): if the job owns a pending or in-progress task, \<open>complete\<close> answers
  with the error \<open>Cannot complete job. All tasks must be completed first.\<close> and the
  database is as before, so the status is unchanged and no change-log entry is written.
  If every task of the job is completed, in particular if it has no task, and the field
  validators accept the job, \<open>complete\<close> succeeds: the stored job has status completed
  and exactly one entry, with action \<open>completed\<close>, is appended to the change log.
\<close>

lemma complete_job_cases:
  assumes "job_get_object d r pk = Inr j"
  shows "((\<exists>t\<in>set (db_tasks d). task_job t = pk \<and> task_status t \<in> {TPending, TIn_progress})
           \<longrightarrow> complete V now d r pk = (d, Inl (BadRequest cannot_complete_msg)))
       \<and> ((\<forall>t\<in>set (db_tasks d). task_job t = pk \<longrightarrow> task_status t = TCompleted)
            \<and> model_field_errors V d (j\<lparr>job_status := Completed\<rparr>) = []
           \<longrightarrow> (\<exists>d' j'. complete V now d r pk = (d', Inr j')
                  \<and> job_status j' = Completed \<and> get_job d' pk = Some j'
                  \<and> db_logs d' = db_logs d @
                      [\<lparr>log_job = Some pk, log_user = user_pk (req_user r),
                        log_action = ''completed'',
                        log_changes = JDict [(''status'', JString ''Job marked as completed'')],
                        log_timestamp = now\<rparr>]
                  \<and> db_tasks d' = db_tasks d \<and> db_users d' = db_users d))"
proof -
  from assms have pk: "job_pk j = Some pk" using job_get_object_Inr by blast
  have refused: "complete V now d r pk = (d, Inl (BadRequest cannot_complete_msg))"
    if "\<exists>t\<in>set (db_tasks d). task_job t = pk \<and> task_status t \<in> {TPending, TIn_progress}"
  proof -
    from that pk have "\<not> can_complete d j" by (auto simp: can_complete_iff)
    then show ?thesis by (simp add: complete_def assms)
  qed
  have finished: "\<exists>d' j'. complete V now d r pk = (d', Inr j')
                  \<and> job_status j' = Completed \<and> get_job d' pk = Some j'
                  \<and> db_logs d' = db_logs d @
                      [\<lparr>log_job = Some pk, log_user = user_pk (req_user r),
                        log_action = ''completed'',
                        log_changes = JDict [(''status'', JString ''Job marked as completed'')],
                        log_timestamp = now\<rparr>]
                  \<and> db_tasks d' = db_tasks d \<and> db_users d' = db_users d"
    if all: "\<forall>t\<in>set (db_tasks d). task_job t = pk \<longrightarrow> task_status t = TCompleted"
      and fields: "model_field_errors V d (j\<lparr>job_status := Completed\<rparr>) = []"
  proof -
    let ?j = "j\<lparr>job_status := Completed\<rparr>"
    define d1 where "d1 = fst (store_job now d ?j)"
    define j1 where "j1 = snd (store_job now d ?j)"
    from all pk have cc: "can_complete d j" by (simp add: can_complete_iff)
    then have cc': "can_complete d ?j" using can_complete_pk [of ?j j d] by simp
    have save: "job_save V now d ?j = (d1, Inr j1)"
      unfolding d1_def j1_def using fields cc' by (intro job_save_ok) simp_all
    have store: "store_job now d ?j = (d1, j1)" by (simp add: d1_def j1_def)
    have pk1: "job_pk j1 = Some pk" and st1: "job_status j1 = Completed"
      using store_job_fields [of now d ?j] pk by (simp_all add: j1_def)
    from store obtain k where "job_pk j1 = Some k" "get_job d1 k = Some j1"
      using store_job_row by blast
    with pk1 have row: "get_job d1 pk = Some j1" by simp
    have others: "db_logs d1 = db_logs d" "db_tasks d1 = db_tasks d" "db_users d1 = db_users d"
      using store_job_others [of now d ?j] by (simp_all add: d1_def)
    have "complete V now d r pk =
            (changelog_create now d1 (Some pk) (user_pk (req_user r)) ''completed''
               (JDict [(''status'', JString ''Job marked as completed'')]), Inr j1)"
      by (simp add: complete_def assms cc save pk1)
    then show ?thesis
      using st1 row others by (simp add: changelog_create_def get_job_def)
  qed
  show ?thesis using refused finished by blast
qed

lemma complete_job_cases_example:
  "job_get_object ex_db \<lparr>req_user = ex_tech, req_method = POST, req_query = no_job_query\<rparr> 1
     = Inr ex_job
   \<and> complete ex_V 20 ex_db \<lparr>req_user = ex_tech, req_method = POST, req_query = no_job_query\<rparr> 1
     = (ex_db, Inl (BadRequest cannot_complete_msg))
   \<and> job_get_object ex_db \<lparr>req_user = ex_sales2, req_method = POST, req_query = no_job_query\<rparr> 3
     = Inr ex_job_empty
   \<and> snd (complete ex_V 20 ex_db
        \<lparr>req_user = ex_sales2, req_method = POST, req_query = no_job_query\<rparr> 3)
     = Inr (ex_job_empty\<lparr>job_status := Completed, job_updated_at := 20\<rparr>)
   \<and> map log_action (db_logs (fst (complete ex_V 20 ex_db
        \<lparr>req_user = ex_sales2, req_method = POST, req_query = no_job_query\<rparr> 3)))
     = [''completed'']"
proof -
  have g1: "job_get_object ex_db
      \<lparr>req_user = ex_tech, req_method = POST, req_query = no_job_query\<rparr> 1 = Inr ex_job"
    by (simp add: ex_defs model_defs)
  have g3: "job_get_object ex_db
      \<lparr>req_user = ex_sales2, req_method = POST, req_query = no_job_query\<rparr> 3 = Inr ex_job_empty"
    by (simp add: ex_defs model_defs)
  show ?thesis
    using complete_job_cases [OF g1, of ex_V 20] complete_job_cases [OF g3, of ex_V 20] g1 g3
    by (simp add: ex_defs model_defs complete_def)
qed

text \<open>
  C3. The refusal holds as stated (\<open>complete_job_cases\<close>). The success does not hold
  for every job without tasks: \<open>complete\<close> saves the job, the save runs the field
  validators, and these reject a job whose creator has been deleted. On the sample
  database after the deletion of the second sales agent, an administrator's request to
  complete her job, which has no task, raises the validation error; the status stays
  pending and the change log stays empty. Before the deletion the same request succeeds.
\<close>

theorem complete_job_deleted_creator:
  "job_get_object ex_db_creator_deleted
       \<lparr>req_user = ex_admin, req_method = POST, req_query = no_job_query\<rparr> 3
     = Inr (ex_job_empty\<lparr>job_created_by := None\<rparr>)
   \<and> job_tasks ex_db_creator_deleted 3 = []
   \<and> complete declared_validators 20 ex_db_creator_deleted
       \<lparr>req_user = ex_admin, req_method = POST, req_query = no_job_query\<rparr> 3
     = (ex_db_creator_deleted, Inl (ValidationError [''This field cannot be blank.'']))
   \<and> map job_status (db_jobs (fst (complete declared_validators 20 ex_db_creator_deleted
       \<lparr>req_user = ex_admin, req_method = POST, req_query = no_job_query\<rparr> 3)))
     = [In_progress, Completed, Pending]
   \<and> db_logs (fst (complete declared_validators 20 ex_db_creator_deleted
       \<lparr>req_user = ex_admin, req_method = POST, req_query = no_job_query\<rparr> 3)) = []
   \<and> snd (complete declared_validators 20 ex_db
       \<lparr>req_user = ex_admin, req_method = POST, req_query = no_job_query\<rparr> 3)
     = Inr (ex_job_empty\<lparr>job_status := Completed, job_updated_at := 20\<rparr>)"
  by code_simp

section \<open>Updating a job\<close>

lemma job_apply_patch_fields:
  "job_pk (job_apply_patch j p) = job_pk j"
  "job_status (job_apply_patch j p) = (case jp_status p of None \<Rightarrow> job_status j | Some s \<Rightarrow> s)"
  "job_assigned_to (job_apply_patch j p)
     = (case jp_assigned_to_id p of None \<Rightarrow> job_assigned_to j | Some a \<Rightarrow> a)"
  by (simp_all add: job_apply_patch_def set_opt_def split: option.split)

lemma username_json_users:
  "db_users d1 = db_users d \<Longrightarrow> username_json d1 fk = username_json d fk"
  by (cases fk) (simp_all add: username_json_def get_user_def)

lemma update_job_unfold:
  assumes "job_get_object d r pk = Inr j"
  shows "update_job V now d r pk p =
     (case job_update_is_valid V d j p of
        Inl e \<Rightarrow> (d, Inl e)
      | Inr attrs \<Rightarrow>
          (case job_save V now d (job_apply_patch j attrs) of
             (d1, Inl e) \<Rightarrow> (d1, Inl e)
           | (d1, Inr j1) \<Rightarrow>
               (if job_changes d1 (job_status j) (job_assigned_to j) j1 \<noteq> []
                then (changelog_create now d1 (job_pk j1) (user_pk (req_user r)) ''updated''
                        (JDict (job_changes d1 (job_status j) (job_assigned_to j) j1)), Inr j1)
                else (d1, Inr j1))))"
  by (simp add: update_job_def job_perform_update_def assms Let_def split: sum.split)

lemma job_update_is_valid_cases:
  "job_update_is_valid V d j p =
     (if job_patch_errors V d p @ assigned_to_id_errors d (jp_assigned_to_id p) \<noteq> []
      then Inl (SerializerValidationError
                  (job_patch_errors V d p @ assigned_to_id_errors d (jp_assigned_to_id p)))
      else if (case jp_status p of None \<Rightarrow> job_status j | Some s \<Rightarrow> s) = Completed
              \<and> \<not> can_complete d j
      then Inl (SerializerValidationError [(''status'', cannot_complete_msg)])
      else Inr p)"
  by (simp add: job_update_is_valid_def job_update_validate_def Let_def)

text \<open>
  C5. For a job that the request can fetch: a patch that sets the status to completed
  while the job cannot be completed is rejected and nothing is written; when the fields
  of the patch are valid, the error is the serializer's
  \<open>Cannot complete job. All tasks must be completed first.\<close> on \<open>status\<close>. When an
  update succeeds, the stored job carries the patched status and assignee, and the
  change log grows by one entry with action \<open>updated\<close> exactly when the status or the
  assignee changed; the entry holds the old and the new value of each of the two fields
  that changed (the assignee by user name) and of no other field. An update with valid
  fields that does not ask for an impossible completion succeeds.
\<close>

theorem update_job_rule:
  assumes "job_get_object d r pk = Inr j"
  shows "(jp_status p = Some Completed \<and> \<not> can_complete d j \<longrightarrow>
            fst (update_job V now d r pk p) = d \<and> isl (snd (update_job V now d r pk p))
            \<and> (job_patch_errors V d p = [] \<and> assigned_to_id_errors d (jp_assigned_to_id p) = []
                \<longrightarrow> snd (update_job V now d r pk p)
                      = Inl (SerializerValidationError [(''status'', cannot_complete_msg)])))
       \<and> (\<forall>d' j'. update_job V now d r pk p = (d', Inr j') \<longrightarrow>
            job_status j' = (case jp_status p of None \<Rightarrow> job_status j | Some s \<Rightarrow> s)
            \<and> job_assigned_to j'
                = (case jp_assigned_to_id p of None \<Rightarrow> job_assigned_to j | Some a \<Rightarrow> a)
            \<and> get_job d' pk = Some j'
            \<and> db_logs d' = db_logs d @
                (if job_status j' \<noteq> job_status j \<or> job_assigned_to j' \<noteq> job_assigned_to j
                 then [\<lparr>log_job = Some pk, log_user = user_pk (req_user r),
                         log_action = ''updated'',
                         log_changes = JDict
                           ((if job_status j' \<noteq> job_status j
                             then [(''status'',
                                    JDict [(''old'', JString (jstatus_str (job_status j))),
                                           (''new'', JString (jstatus_str (job_status j')))])]
                             else []) @
                            (if job_assigned_to j' \<noteq> job_assigned_to j
                             then [(''assigned_to'',
                                    JDict [(''old'', username_json d (job_assigned_to j)),
                                           (''new'', username_json d (job_assigned_to j'))])]
                             else [])),
                         log_timestamp = now\<rparr>]
                 else []))
       \<and> (job_patch_errors V d p = [] \<and> assigned_to_id_errors d (jp_assigned_to_id p) = []
            \<and> model_field_errors V d (job_apply_patch j p) = []
            \<and> ((case jp_status p of None \<Rightarrow> job_status j | Some s \<Rightarrow> s) = Completed
                 \<longrightarrow> can_complete d j)
           \<longrightarrow> (\<exists>d' j'. update_job V now d r pk p = (d', Inr j')))"
proof -
  from assms have pk: "job_pk j = Some pk" using job_get_object_Inr by blast
  note unfold = update_job_unfold [OF assms, of V now p]
  have rejected: "fst (update_job V now d r pk p) = d \<and> isl (snd (update_job V now d r pk p))
            \<and> (job_patch_errors V d p = [] \<and> assigned_to_id_errors d (jp_assigned_to_id p) = []
                \<longrightarrow> snd (update_job V now d r pk p)
                      = Inl (SerializerValidationError [(''status'', cannot_complete_msg)]))"
    if "jp_status p = Some Completed" "\<not> can_complete d j"
    using that by (simp add: unfold job_update_is_valid_cases)
  have succeeded: "job_status j' = (case jp_status p of None \<Rightarrow> job_status j | Some s \<Rightarrow> s)
            \<and> job_assigned_to j'
                = (case jp_assigned_to_id p of None \<Rightarrow> job_assigned_to j | Some a \<Rightarrow> a)
            \<and> get_job d' pk = Some j'
            \<and> db_logs d' = db_logs d @
                (if job_status j' \<noteq> job_status j \<or> job_assigned_to j' \<noteq> job_assigned_to j
                 then [\<lparr>log_job = Some pk, log_user = user_pk (req_user r),
                         log_action = ''updated'',
                         log_changes = JDict
                           ((if job_status j' \<noteq> job_status j
                             then [(''status'',
                                    JDict [(''old'', JString (jstatus_str (job_status j))),
                                           (''new'', JString (jstatus_str (job_status j')))])]
                             else []) @
                            (if job_assigned_to j' \<noteq> job_assigned_to j
                             then [(''assigned_to'',
                                    JDict [(''old'', username_json d (job_assigned_to j)),
                                           (''new'', username_json d (job_assigned_to j'))])]
                             else [])),
                         log_timestamp = now\<rparr>]
                 else [])"
    if upd: "update_job V now d r pk p = (d', Inr j')" for d' j'
  proof -
    from upd have valid: "job_update_is_valid V d j p = Inr p"
      by (cases "job_update_is_valid V d j p")
         (auto simp: unfold job_update_is_valid_cases split: if_splits)
    obtain d1 res where sv: "job_save V now d (job_apply_patch j p) = (d1, res)"
      by (cases "job_save V now d (job_apply_patch j p)") blast
    from upd valid sv obtain j1 where res: "res = Inr j1"
      by (cases res) (auto simp: unfold)
    from upd valid sv res have j': "j' = j1"
      by (auto simp: unfold split: if_splits)
    from sv res have store: "store_job now d (job_apply_patch j p) = (d1, j1)"
      using job_save_Inr by blast
    then have j1: "j1 = snd (store_job now d (job_apply_patch j p))"
      and d1: "d1 = fst (store_job now d (job_apply_patch j p))" by simp_all
    have st: "job_status j1 = (case jp_status p of None \<Rightarrow> job_status j | Some s \<Rightarrow> s)"
      and asg: "job_assigned_to j1
                = (case jp_assigned_to_id p of None \<Rightarrow> job_assigned_to j | Some a \<Rightarrow> a)"
      and pk1: "job_pk j1 = Some pk"
      using store_job_fields [of now d "job_apply_patch j p"] pk
      by (simp_all add: j1 job_apply_patch_fields)
    from store obtain k where "job_pk j1 = Some k" "get_job d1 k = Some j1"
      using store_job_row by blast
    with pk1 have row: "get_job d1 pk = Some j1" by simp
    have others: "db_logs d1 = db_logs d" "db_users d1 = db_users d"
      using store_job_others [of now d "job_apply_patch j p"] by (simp_all add: d1)
    have un: "username_json d1 fk = username_json d fk" for fk
      using others(2) by (rule username_json_users)
    have d': "d' = (if job_changes d1 (job_status j) (job_assigned_to j) j1 \<noteq> []
                   then changelog_create now d1 (Some pk) (user_pk (req_user r)) ''updated''
                          (JDict (job_changes d1 (job_status j) (job_assigned_to j) j1))
                   else d1)"
      using upd valid sv res pk1 by (auto simp: unfold split: if_splits)
    have row': "get_job d' pk = Some j1" using row by (simp add: d')
    have logs: "db_logs d' = db_logs d @
                (if job_status j1 \<noteq> job_status j \<or> job_assigned_to j1 \<noteq> job_assigned_to j
                 then [\<lparr>log_job = Some pk, log_user = user_pk (req_user r),
                         log_action = ''updated'',
                         log_changes = JDict
                           ((if job_status j1 \<noteq> job_status j
                             then [(''status'',
                                    JDict [(''old'', JString (jstatus_str (job_status j))),
                                           (''new'', JString (jstatus_str (job_status j1)))])]
                             else []) @
                            (if job_assigned_to j1 \<noteq> job_assigned_to j
                             then [(''assigned_to'',
                                    JDict [(''old'', username_json d (job_assigned_to j)),
                                           (''new'', username_json d (job_assigned_to j1))])]
                             else [])),
                         log_timestamp = now\<rparr>]
                 else [])"
      unfolding d' by (auto simp: job_changes_def changelog_create_def others un)
    show ?thesis using st asg row' logs by (simp add: j')
  qed
  have possible: "\<exists>d' j'. update_job V now d r pk p = (d', Inr j')"
    if "job_patch_errors V d p = []" "assigned_to_id_errors d (jp_assigned_to_id p) = []"
      and fields: "model_field_errors V d (job_apply_patch j p) = []"
      and cc: "(case jp_status p of None \<Rightarrow> job_status j | Some s \<Rightarrow> s) = Completed
                 \<longrightarrow> can_complete d j"
  proof -
    from that(1,2) cc have valid: "job_update_is_valid V d j p = Inr p"
      by (auto simp: job_update_is_valid_cases)
    have "can_complete d (job_apply_patch j p) = can_complete d j"
      by (rule can_complete_pk) (simp add: job_apply_patch_fields)
    with cc have "job_status (job_apply_patch j p) = Completed
                    \<longrightarrow> can_complete d (job_apply_patch j p)"
      by (simp add: job_apply_patch_fields)
    with fields have "job_save V now d (job_apply_patch j p)
        = (fst (store_job now d (job_apply_patch j p)),
           Inr (snd (store_job now d (job_apply_patch j p))))"
      by (rule job_save_ok)
    then show ?thesis by (simp add: unfold valid)
  qed
  show ?thesis using rejected succeeded possible by blast
qed

theorem update_job_rule_witness:
  "job_get_object ex_db \<lparr>req_user = ex_admin, req_method = PATCH, req_query = no_job_query\<rparr> 1
     = Inr ex_job
   \<and> \<not> can_complete ex_db ex_job
   \<and> update_job ex_V 20 ex_db
        \<lparr>req_user = ex_admin, req_method = PATCH, req_query = no_job_query\<rparr> 1
        (no_job_patch\<lparr>jp_status := Some Completed, jp_title := Some ''Done''\<rparr>)
     = (ex_db, Inl (SerializerValidationError [(''status'', cannot_complete_msg)]))
   \<and> snd (update_job ex_V 20 ex_db
        \<lparr>req_user = ex_admin, req_method = PATCH, req_query = no_job_query\<rparr> 1
        (no_job_patch\<lparr>jp_status := Some Cancelled, jp_assigned_to_id := Some (Some 3)\<rparr>))
     = Inr (ex_job\<lparr>job_status := Cancelled, job_assigned_to := Some 3, job_updated_at := 20\<rparr>)
   \<and> db_logs (fst (update_job ex_V 20 ex_db
        \<lparr>req_user = ex_admin, req_method = PATCH, req_query = no_job_query\<rparr> 1
        (no_job_patch\<lparr>jp_status := Some Cancelled, jp_assigned_to_id := Some (Some 3)\<rparr>)))
     = [\<lparr>log_job = Some 1, log_user = Some 1, log_action = ''updated'',
         log_changes = JDict
           [(''status'', JDict [(''old'', JString ''in_progress''),
                                (''new'', JString ''cancelled'')]),
            (''assigned_to'', JDict [(''old'', JString ''tina''), (''new'', JString ''tom'')])],
         log_timestamp = 20\<rparr>]
   \<and> db_logs (fst (update_job ex_V 20 ex_db
        \<lparr>req_user = ex_admin, req_method = PATCH, req_query = no_job_query\<rparr> 1
        (no_job_patch\<lparr>jp_title := Some ''Install two'', jp_priority := Some Urgent\<rparr>))) = []"
proof -
  have g: "job_get_object ex_db
      \<lparr>req_user = ex_admin, req_method = PATCH, req_query = no_job_query\<rparr> 1 = Inr ex_job"
    by code_simp
  have n: "\<not> can_complete ex_db ex_job"
    by code_simp
  have e1: "update_job ex_V 20 ex_db
        \<lparr>req_user = ex_admin, req_method = PATCH, req_query = no_job_query\<rparr> 1
        (no_job_patch\<lparr>jp_status := Some Completed, jp_title := Some ''Done''\<rparr>)
     = (ex_db, Inl (SerializerValidationError [(''status'', cannot_complete_msg)]))"
    by code_simp
  have e2: "snd (update_job ex_V 20 ex_db
        \<lparr>req_user = ex_admin, req_method = PATCH, req_query = no_job_query\<rparr> 1
        (no_job_patch\<lparr>jp_status := Some Cancelled, jp_assigned_to_id := Some (Some 3)\<rparr>))
     = Inr (ex_job\<lparr>job_status := Cancelled, job_assigned_to := Some 3, job_updated_at := 20\<rparr>)"
    by code_simp
  have e3: "db_logs (fst (update_job ex_V 20 ex_db
        \<lparr>req_user = ex_admin, req_method = PATCH, req_query = no_job_query\<rparr> 1
        (no_job_patch\<lparr>jp_status := Some Cancelled, jp_assigned_to_id := Some (Some 3)\<rparr>)))
     = [\<lparr>log_job = Some 1, log_user = Some 1, log_action = ''updated'',
         log_changes = JDict
           [(''status'', JDict [(''old'', JString ''in_progress''),
                                (''new'', JString ''cancelled'')]),
            (''assigned_to'', JDict [(''old'', JString ''tina''), (''new'', JString ''tom'')])],
         log_timestamp = 20\<rparr>]"
    by code_simp
  have e4: "db_logs (fst (update_job ex_V 20 ex_db
        \<lparr>req_user = ex_admin, req_method = PATCH, req_query = no_job_query\<rparr> 1
        (no_job_patch\<lparr>jp_title := Some ''Install two'', jp_priority := Some Urgent\<rparr>))) = []"
    by code_simp
  show ?thesis
    using update_job_rule [OF g,
        of "no_job_patch\<lparr>jp_status := Some Completed, jp_title := Some ''Done''\<rparr>" ex_V 20]
      update_job_rule [OF g,
        of "no_job_patch\<lparr>jp_status := Some Cancelled, jp_assigned_to_id := Some (Some 3)\<rparr>"
          ex_V 20]
    by (intro conjI g n e1 e2 e3 e4)
qed

section \<open>Updating a task\<close>

lemma task_apply_patch_fields:
  "task_pk (task_apply_patch t p) = task_pk t"
  "task_status (task_apply_patch t p) = (case tp_status p of None \<Rightarrow> task_status t | Some s \<Rightarrow> s)"
  "task_completed_at (task_apply_patch t p) = task_completed_at t"
  by (simp_all add: task_apply_patch_def set_opt_def split: option.split)

lemma task_save_fst_snd:
  "task_save now d t = (fst (task_save now d t), snd (task_save now d t))"
  by simp

lemma task_save_others:
  "db_logs (fst (task_save now d t)) = db_logs d"
  by (simp add: task_save_def Let_def store_task_others)

lemma task_save_pk:
  "task_pk t = Some k \<Longrightarrow> task_pk (snd (task_save now d t)) = Some k"
  by (simp add: task_save_def store_task_def Let_def)

lemma task_save_title_job:
  "task_title (snd (task_save now d t)) = task_title t
   \<and> task_job (snd (task_save now d t)) = task_job t"
  by (simp add: task_save_def Let_def store_task_fields)

lemma update_task_unfold:
  assumes "task_get_object d r pk = Inr t"
  shows "update_task V now d r pk p =
     (if task_patch_errors V d p @ validate_order (tp_order p) \<noteq> []
      then (d, Inl (SerializerValidationError (task_patch_errors V d p @ validate_order (tp_order p))))
      else (if task_status t \<noteq> task_status (snd (task_save now d (task_apply_patch t p)))
            then (changelog_create now (fst (task_save now d (task_apply_patch t p)))
                    (Some (task_job (snd (task_save now d (task_apply_patch t p)))))
                    (user_pk (req_user r)) ''task_updated''
                    (task_changes (task_status t) (snd (task_save now d (task_apply_patch t p)))),
                  Inr (snd (task_save now d (task_apply_patch t p))))
            else (fst (task_save now d (task_apply_patch t p)),
                  Inr (snd (task_save now d (task_apply_patch t p))))))"
  by (simp add: update_task_def task_perform_update_def task_is_valid_def assms Let_def
      split: prod.split)

text \<open>
  C7. For a task that the request can fetch: when an update succeeds, the stored task
  carries the patched status, and the change log of the task's job grows by one entry
  with action \<open>task_updated\<close>, holding the task's key and title and the old and the new
  status, exactly when the status changed. A patch that gives the task its current
  status writes no change-log entry and, for a task whose \<open>completed_at\<close> is set exactly
  when it is completed, leaves \<open>completed_at\<close> as it was. An update with valid fields
  succeeds.
\<close>

theorem update_task_rule:
  assumes "task_get_object d r pk = Inr t"
  shows "(\<forall>d' t'. update_task V now d r pk p = (d', Inr t') \<longrightarrow>
            task_status t' = (case tp_status p of None \<Rightarrow> task_status t | Some s \<Rightarrow> s)
            \<and> get_task d' pk = Some t'
            \<and> db_logs d' = db_logs d @
                (if task_status t' \<noteq> task_status t
                 then [\<lparr>log_job = Some (task_job t'), log_user = user_pk (req_user r),
                         log_action = ''task_updated'',
                         log_changes = JDict
                           [(''task_id'', JInt (int pk)),
                            (''task_title'', JString (task_title t')),
                            (''old_status'', JString (tstatus_str (task_status t))),
                            (''new_status'', JString (tstatus_str (task_status t')))],
                         log_timestamp = now\<rparr>]
                 else []))
       \<and> (tp_status p = Some (task_status t)
            \<and> (task_completed_at t \<noteq> None \<longleftrightarrow> task_status t = TCompleted) \<longrightarrow>
            db_logs (fst (update_task V now d r pk p)) = db_logs d
            \<and> (\<forall>t'. snd (update_task V now d r pk p) = Inr t'
                  \<longrightarrow> task_completed_at t' = task_completed_at t))
       \<and> (task_patch_errors V d p = [] \<and> validate_order (tp_order p) = []
            \<longrightarrow> (\<exists>d' t'. update_task V now d r pk p = (d', Inr t')))"
proof -
  from assms have pk: "task_pk t = Some pk" using task_get_object_Inr by blast
  note unfold = update_task_unfold [OF assms, of V now p]
  define d1 where "d1 = fst (task_save now d (task_apply_patch t p))"
  define t1 where "t1 = snd (task_save now d (task_apply_patch t p))"
  have save: "task_save now d (task_apply_patch t p) = (d1, t1)"
    by (simp add: d1_def t1_def)
  have inv: "(task_completed_at t1 \<noteq> None \<longleftrightarrow> task_status t1 = TCompleted)"
    and st1: "task_status t1 = (case tp_status p of None \<Rightarrow> task_status t | Some s \<Rightarrow> s)"
    and keep: "task_status (task_apply_patch t p) \<noteq> TCompleted \<longrightarrow> task_completed_at t1 = None"
    using task_save_result [OF save] by (simp_all add: task_apply_patch_fields)
  have pk1: "task_pk t1 = Some pk"
    unfolding t1_def by (rule task_save_pk) (simp add: task_apply_patch_fields pk)
  from task_save_result [OF save] obtain k
    where "task_pk t1 = Some k" "get_task d1 k = Some t1" by blast
  with pk1 have row: "get_task d1 pk = Some t1" by simp
  have logs1: "db_logs d1 = db_logs d" by (simp add: d1_def task_save_others)
  have succeeded: "task_status t' = (case tp_status p of None \<Rightarrow> task_status t | Some s \<Rightarrow> s)
            \<and> get_task d' pk = Some t'
            \<and> db_logs d' = db_logs d @
                (if task_status t' \<noteq> task_status t
                 then [\<lparr>log_job = Some (task_job t'), log_user = user_pk (req_user r),
                         log_action = ''task_updated'',
                         log_changes = JDict
                           [(''task_id'', JInt (int pk)),
                            (''task_title'', JString (task_title t')),
                            (''old_status'', JString (tstatus_str (task_status t))),
                            (''new_status'', JString (tstatus_str (task_status t')))],
                         log_timestamp = now\<rparr>]
                 else [])"
    if upd: "update_task V now d r pk p = (d', Inr t')" for d' t'
  proof -
    from upd have t': "t' = t1"
      by (auto simp: unfold t1_def split: if_splits)
    from upd have d': "d' = (if task_status t \<noteq> task_status t1
                             then changelog_create now d1 (Some (task_job t1))
                                    (user_pk (req_user r)) ''task_updated''
                                    (task_changes (task_status t) t1)
                             else d1)"
      by (auto simp: unfold t1_def d1_def split: if_splits)
    have row': "get_task d' pk = Some t1" using row by (simp add: d')
    have logs: "db_logs d' = db_logs d @
                (if task_status t1 \<noteq> task_status t
                 then [\<lparr>log_job = Some (task_job t1), log_user = user_pk (req_user r),
                         log_action = ''task_updated'',
                         log_changes = JDict
                           [(''task_id'', JInt (int pk)),
                            (''task_title'', JString (task_title t1)),
                            (''old_status'', JString (tstatus_str (task_status t))),
                            (''new_status'', JString (tstatus_str (task_status t1)))],
                         log_timestamp = now\<rparr>]
                 else [])"
      unfolding d' by (auto simp: changelog_create_def task_changes_def logs1 pk1)
    show ?thesis using st1 row' logs by (simp add: t')
  qed
  have noop: "db_logs (fst (update_task V now d r pk p)) = db_logs d
            \<and> (\<forall>t'. snd (update_task V now d r pk p) = Inr t'
                  \<longrightarrow> task_completed_at t' = task_completed_at t)"
    if same: "tp_status p = Some (task_status t)"
      and tinv: "task_completed_at t \<noteq> None \<longleftrightarrow> task_status t = TCompleted"
  proof -
    from same st1 have eq: "task_status t1 = task_status t" by simp
    have c: "task_completed_at t1 = task_completed_at t"
    proof (cases "task_status t = TCompleted")
      case True
      with tinv obtain c where c: "task_completed_at t = Some c" by auto
      with True same show ?thesis
        by (simp add: t1_def task_save_def Let_def store_task_fields task_apply_patch_fields)
    next
      case False
      with tinv have "task_completed_at t = None" by simp
      moreover from False same keep have "task_completed_at t1 = None"
        by (simp add: task_apply_patch_fields)
      ultimately show ?thesis by simp
    qed
    have "update_task V now d r pk p =
            (if task_patch_errors V d p @ validate_order (tp_order p) \<noteq> []
             then (d, Inl (SerializerValidationError
                     (task_patch_errors V d p @ validate_order (tp_order p))))
             else (d1, Inr t1))"
      using eq by (simp add: unfold t1_def d1_def)
    then show ?thesis using c logs1 by (auto split: if_splits)
  qed
  have possible: "\<exists>d' t'. update_task V now d r pk p = (d', Inr t')"
    if "task_patch_errors V d p = []" "validate_order (tp_order p) = []"
    using that by (simp add: unfold)
  show ?thesis using succeeded noop possible by blast
qed

theorem update_task_rule_witness:
  "task_get_object ex_db \<lparr>req_user = ex_tech, req_method = PATCH, req_query = no_task_query\<rparr> 1
     = Inr ex_task_a
   \<and> update_task ex_V 20 ex_db
        \<lparr>req_user = ex_tech, req_method = PATCH, req_query = no_task_query\<rparr> 1
        (no_task_patch\<lparr>tp_status := Some TCompleted, tp_title := Some ''Mount it''\<rparr>)
     = (ex_db\<lparr>db_tasks := [ex_task_a\<lparr>task_title := ''Mount it'', task_updated_at := 20\<rparr>,
                             ex_task_b, ex_task_c]\<rparr>,
        Inr (ex_task_a\<lparr>task_title := ''Mount it'', task_updated_at := 20\<rparr>))
   \<and> db_logs (fst (update_task ex_V 20 ex_db
        \<lparr>req_user = ex_tech, req_method = PATCH, req_query = no_task_query\<rparr> 1
        (no_task_patch\<lparr>tp_status := Some TIn_progress\<rparr>)))
     = [\<lparr>log_job = Some 1, log_user = Some 2, log_action = ''task_updated'',
         log_changes = JDict
           [(''task_id'', JInt 1), (''task_title'', JString ''Mount''),
            (''old_status'', JString ''completed''), (''new_status'', JString ''in_progress'')],
         log_timestamp = 20\<rparr>]"
proof -
  have g: "task_get_object ex_db
      \<lparr>req_user = ex_tech, req_method = PATCH, req_query = no_task_query\<rparr> 1 = Inr ex_task_a"
    by code_simp
  have e1: "update_task ex_V 20 ex_db
        \<lparr>req_user = ex_tech, req_method = PATCH, req_query = no_task_query\<rparr> 1
        (no_task_patch\<lparr>tp_status := Some TCompleted, tp_title := Some ''Mount it''\<rparr>)
     = (ex_db\<lparr>db_tasks := [ex_task_a\<lparr>task_title := ''Mount it'', task_updated_at := 20\<rparr>,
                             ex_task_b, ex_task_c]\<rparr>,
        Inr (ex_task_a\<lparr>task_title := ''Mount it'', task_updated_at := 20\<rparr>))"
    by code_simp
  have e2: "db_logs (fst (update_task ex_V 20 ex_db
        \<lparr>req_user = ex_tech, req_method = PATCH, req_query = no_task_query\<rparr> 1
        (no_task_patch\<lparr>tp_status := Some TIn_progress\<rparr>)))
     = [\<lparr>log_job = Some 1, log_user = Some 2, log_action = ''task_updated'',
         log_changes = JDict
           [(''task_id'', JInt 1), (''task_title'', JString ''Mount''),
            (''old_status'', JString ''completed''), (''new_status'', JString ''in_progress'')],
         log_timestamp = 20\<rparr>]"
    by code_simp
  show ?thesis
    using update_task_rule [OF g,
        of ex_V 20 "no_task_patch\<lparr>tp_status := Some TCompleted, tp_title := Some ''Mount it''\<rparr>"]
      update_task_rule [OF g, of ex_V 20 "no_task_patch\<lparr>tp_status := Some TIn_progress\<rparr>"]
    by (intro conjI g e1 e2)
qed

end
